theory Spec2Isabelle
  imports Main "HOL-Library.Sublist"
begin

section \<open>The PDF-to-speech Cloud Function\<close>

text \<open>
  A shallow embedding of \<^verbatim>\<open>function.go\<close> (the handler), \<^verbatim>\<open>internal/tts/tts.go\<close>
  (the long audio synthesis poller), \<^verbatim>\<open>internal/storage\<close> (the download to a
  temporary file) and \<^verbatim>\<open>internal/pdf-to-text/pdfprocessor\<close> (the text extraction).
  A Go string is the list of its bytes. Every call that leaves the process (object
  storage, the file system, the PDF library, the speech backend, the logger, the clock)
  is recorded in a trace of events, in the order the code makes it; what such a call
  returns is read from a record of oracles, the \<open>world\<close>.
\<close>

subsection \<open>The Go library functions the handler calls\<close>

text \<open>\<^verbatim>\<open>strings.HasPrefix\<close>, \<^verbatim>\<open>strings.HasSuffix\<close> and \<^verbatim>\<open>strings.TrimSuffix\<close>.\<close>

definition HasPrefix :: "string \<Rightarrow> string \<Rightarrow> bool" where
  "HasPrefix s p = (length p \<le> length s \<and> take (length p) s = p)"

definition HasSuffix :: "string \<Rightarrow> string \<Rightarrow> bool" where
  "HasSuffix s suf = (length suf \<le> length s \<and> drop (length s - length suf) s = suf)"

definition TrimSuffix :: "string \<Rightarrow> string \<Rightarrow> string" where
  "TrimSuffix s suf = (if HasSuffix s suf then take (length s - length suf) s else s)"

text \<open>
  \<^verbatim>\<open>strings.ToLower\<close>, on bytes: \<^verbatim>\<open>if 'A' <= c && c <= 'Z' { c += 'a' - 'A' }\<close>.
  Go also lowers the upper-case runes outside ASCII and replaces a byte that is not
  UTF-8 by U+FFFD; none of these results is one of the bytes of \<^verbatim>\<open>.pdf\<close>, and an ASCII
  byte is always a rune of its own, so the test of the suffix \<^verbatim>\<open>.pdf\<close>, the only use
  the handler makes of the result, is the same on bytes.
\<close>

definition lower_byte :: "char \<Rightarrow> char" where
  "lower_byte c =
     (let n = (of_char c :: nat) in if 65 \<le> n \<and> n \<le> 90 then char_of (n + 32) else c)"

definition ToLower :: "string \<Rightarrow> string" where
  "ToLower s = map lower_byte s"

text \<open>
  \<^verbatim>\<open>filepath.Base\<close> and \<^verbatim>\<open>filepath.Ext\<close> where the separator is \<^verbatim>\<open>/\<close> and there is no
  volume name (the function runs on Linux). \<open>Base\<close> strips the trailing separators,
  keeps what follows the last separator, and answers \<^verbatim>\<open>.\<close> for the empty path and
  \<^verbatim>\<open>/\<close> for a path of separators only. \<open>Ext\<close> walks back from the end, stops at a
  separator and returns the path from the first dot it meets.
\<close>

definition Base :: "string \<Rightarrow> string" where
  "Base path =
     (if path = [] then ''.''
      else let stripped = rev (dropWhile (\<lambda>c. c = CHR ''/'') (rev path));
               elem = rev (takeWhile (\<lambda>c. c \<noteq> CHR ''/'') (rev stripped))
           in if elem = [] then ''/'' else elem)"

fun ext_scan :: "string \<Rightarrow> string \<Rightarrow> string" where
  "ext_scan [] seen = []"
| "ext_scan (c # front) seen =
     (if c = CHR ''/'' then []
      else if c = CHR ''.'' then c # seen
      else ext_scan front (c # seen))"

definition Ext :: "string \<Rightarrow> string" where
  "Ext path = ext_scan (rev path) []"

text \<open>
  \<^verbatim>\<open>strings.TrimSpace\<close>: the leading and the trailing white space runes are removed,
  white space being \<^verbatim>\<open>unicode.IsSpace\<close>. On bytes, a rune of white space is one of the
  UTF-8 encodings below: the six of ASCII, U+0085, U+00A0, U+1680, U+2000 to U+200A,
  U+2028, U+2029, U+202F, U+205F and U+3000.
\<close>

definition space_encodings :: "string list" where
  "space_encodings =
     [[CHR 0x09], [CHR 0x0A], [CHR 0x0B], [CHR 0x0C], [CHR 0x0D], [CHR 0x20],
      [CHR 0xC2, CHR 0x85], [CHR 0xC2, CHR 0xA0],
      [CHR 0xE1, CHR 0x9A, CHR 0x80],
      [CHR 0xE2, CHR 0x80, CHR 0x80], [CHR 0xE2, CHR 0x80, CHR 0x81],
      [CHR 0xE2, CHR 0x80, CHR 0x82], [CHR 0xE2, CHR 0x80, CHR 0x83],
      [CHR 0xE2, CHR 0x80, CHR 0x84], [CHR 0xE2, CHR 0x80, CHR 0x85],
      [CHR 0xE2, CHR 0x80, CHR 0x86], [CHR 0xE2, CHR 0x80, CHR 0x87],
      [CHR 0xE2, CHR 0x80, CHR 0x88], [CHR 0xE2, CHR 0x80, CHR 0x89],
      [CHR 0xE2, CHR 0x80, CHR 0x8A],
      [CHR 0xE2, CHR 0x80, CHR 0xA8], [CHR 0xE2, CHR 0x80, CHR 0xA9],
      [CHR 0xE2, CHR 0x80, CHR 0xAF],
      [CHR 0xE2, CHR 0x81, CHR 0x9F],
      [CHR 0xE3, CHR 0x80, CHR 0x80]]"

definition leading :: "string list \<Rightarrow> string \<Rightarrow> string option" where
  "leading encs s = find (\<lambda>p. p \<noteq> [] \<and> prefix p s) encs"

function trim_left :: "string list \<Rightarrow> string \<Rightarrow> string" where
  "trim_left encs s =
     (case leading encs s of
        None \<Rightarrow> s
      | Some p \<Rightarrow> trim_left encs (drop (length p) s))"
  by pat_completeness auto
termination
  by (relation "measure (\<lambda>(encs, s). length s)")
     (auto simp: leading_def find_Some_iff prefix_def)

definition TrimSpace :: "string \<Rightarrow> string" where
  "TrimSpace s =
     rev (trim_left (map rev space_encodings) (rev (trim_left space_encodings s)))"

text \<open>\<^verbatim>\<open>os.Getenv\<close>: the value of the variable, empty when it is not set.\<close>

definition Getenv :: "(string \<rightharpoonup> string) \<Rightarrow> string \<Rightarrow> string" where
  "Getenv environ key = (case environ key of None \<Rightarrow> [] | Some v \<Rightarrow> v)"

subsection \<open>Data: the event, errors, the speech request, the trace\<close>

text \<open>The payload of a storage event (\<^verbatim>\<open>StorageObjectData\<close> of \<^verbatim>\<open>function.go\<close>).\<close>

record StorageObjectData =
  Bucket :: string
  Name :: string
  ContentType :: string

text \<open>
  A Go error is either made by \<^verbatim>\<open>fmt.Errorf\<close>, and then it is its format with its
  arguments (the argument of a \<^verbatim>\<open>%w\<close> is the error it wraps), or it comes from a
  library and is its message.
\<close>

datatype goerr = Errorf string "fmtarg list" | LibraryError string
and fmtarg = ArgS string | ArgN nat | ArgE goerr

text \<open>The request of \<^verbatim>\<open>SynthesizeLongAudio\<close>, with the fields the code sets.\<close>

datatype AudioEncoding = LINEAR16 | MP3

datatype SsmlVoiceGender = NEUTRAL | MALE | FEMALE

record SynthesizeLongAudioRequest =
  InputText :: string
  Encoding :: AudioEncoding
  SampleRateHertz :: nat
  LanguageCode :: string
  SsmlGender :: SsmlVoiceGender
  VoiceName :: string
  OutputGcsUri :: string
  Parent :: string

text \<open>
  The long-running operation as \<^verbatim>\<open>GetOperation\<close> returns it: the flag \<^verbatim>\<open>Done\<close>, the
  error (\<^verbatim>\<open>GetError()\<close>, with its message) and the metadata (\<^verbatim>\<open>GetMetadata()\<close>, a
  packed message), each absent when nil.
\<close>

record Operation =
  Done :: bool
  OpError :: "string option"
  Metadata :: "string option"

text \<open>
  The calls that leave the process, in the order they are made. \<open>EvPrintf\<close> is a line of
  the log (\<^verbatim>\<open>log.Printf\<close>, \<^verbatim>\<open>log.Println\<close>): its format and its arguments. \<open>EvSleep\<close> is
  \<^verbatim>\<open>time.Sleep\<close>, in seconds. Closing the reader and the file is not traced.
\<close>

datatype event =
    EvPrintf string "fmtarg list"
  | EvNewReader string string
  | EvCreateTemp string
  | EvCopy string
  | EvRemove string
  | EvPdfOpen string
  | EvSynthesizeLongAudio SynthesizeLongAudioRequest
  | EvGetOperation string
  | EvSleep nat

text \<open>
  What the calls return. \<open>environ\<close> is the process environment. \<open>NewReader\<close> opens an
  object of a bucket and gives its content; \<open>CreateTemp\<close> gives the name of the new
  file for a pattern; \<open>io_Copy\<close> writes the content to the file; \<open>os_Remove\<close> deletes a
  file; \<open>IsNotExist\<close> is \<^verbatim>\<open>os.IsNotExist\<close>. \<open>pdf_Open\<close> opens a PDF file and gives, for
  each page in order, what \<^verbatim>\<open>GetPlainText\<close> returns. \<open>Submit\<close> is the client's
  \<^verbatim>\<open>SynthesizeLongAudio\<close> and gives the name of the operation; \<open>GetOperation name i\<close> is
  what the \<open>i\<close>-th status fetch of the operation returns, counted from 0;
  \<open>UnmarshalTo\<close> decodes the metadata, to the text the log prints.
\<close>

record world =
  environ :: "string \<rightharpoonup> string"
  NewReader :: "string \<Rightarrow> string \<Rightarrow> goerr + string"
  CreateTemp :: "string \<Rightarrow> goerr + string"
  io_Copy :: "string \<Rightarrow> string \<Rightarrow> goerr option"
  os_Remove :: "string \<Rightarrow> goerr option"
  IsNotExist :: "goerr \<Rightarrow> bool"
  pdf_Open :: "string \<Rightarrow> goerr + (goerr + string) list"
  Submit :: "SynthesizeLongAudioRequest \<Rightarrow> goerr + string"
  GetOperation :: "string \<Rightarrow> nat \<Rightarrow> goerr + Operation"
  UnmarshalTo :: "string \<Rightarrow> goerr + string"

subsection \<open>internal/storage: DownloadFileToTemp\<close>

text \<open>
  The closure \<^verbatim>\<open>cleanupFunc\<close>: it removes the temporary file and logs the outcome. It is
  modelled by the events a call of it makes.
\<close>

definition cleanupFunc :: "world \<Rightarrow> string \<Rightarrow> event list" where
  "cleanupFunc w tempName =
     EvRemove tempName #
     (case os_Remove w tempName of
        Some err \<Rightarrow>
          if \<not> IsNotExist w err
          then [EvPrintf ''Error cleaning up temp file %s: %v'' [ArgS tempName, ArgE err]]
          else [EvPrintf ''Cleaned up temp file %s'' [ArgS tempName]]
      | None \<Rightarrow> [EvPrintf ''Cleaned up temp file %s'' [ArgS tempName]])"

text \<open>
  The result is the error, or the path of the temporary file with the clean-up closure;
  the second component is the trace of the call.
\<close>

definition DownloadFileToTemp ::
  "world \<Rightarrow> string \<Rightarrow> string \<Rightarrow> (goerr + string \<times> event list) \<times> event list" where
  "DownloadFileToTemp w bucketName objectName =
     (case NewReader w bucketName objectName of
        Inl err \<Rightarrow>
          (Inl (Errorf ''NewReader: %w'' [ArgE err]), [EvNewReader bucketName objectName])
      | Inr rc \<Rightarrow>
          (case CreateTemp w (Base objectName @ ''_*.tmp'') of
             Inl err \<Rightarrow>
               (Inl (Errorf ''failed to create temp file: %w'' [ArgE err]),
                [EvNewReader bucketName objectName,
                 EvCreateTemp (Base objectName @ ''_*.tmp'')])
           | Inr tempName \<Rightarrow>
               (case io_Copy w tempName rc of
                  Some err \<Rightarrow>
                    (Inl (Errorf ''failed to copy object to temp file: %w'' [ArgE err]),
                     [EvNewReader bucketName objectName,
                      EvCreateTemp (Base objectName @ ''_*.tmp''),
                      EvCopy tempName,
                      EvRemove tempName])
                | None \<Rightarrow>
                    (Inr (tempName, cleanupFunc w tempName),
                     [EvNewReader bucketName objectName,
                      EvCreateTemp (Base objectName @ ''_*.tmp''),
                      EvCopy tempName,
                      EvPrintf ''Downloaded gs://%s/%s to temp file: %s''
                        [ArgS bucketName, ArgS objectName, ArgS tempName]]))))"

subsection \<open>internal/pdf-to-text: ExtractTextFromPDFFilePath\<close>

text \<open>
  The loop over the pages, from page \<open>i\<close>: the text of a page that fails is skipped
  with a warning, the others are written to the builder in order.
\<close>

fun extract_pages :: "string \<Rightarrow> nat \<Rightarrow> (goerr + string) list \<Rightarrow> string \<times> event list" where
  "extract_pages filePath i [] = ([], [])"
| "extract_pages filePath i (page # pages) =
     (let (rest, evs) = extract_pages filePath (Suc i) pages
      in case page of
           Inl err \<Rightarrow>
             (rest,
              EvPrintf ''Warning: Failed to extract text from page %d of %s: %v''
                [ArgN i, ArgS filePath, ArgE err] # evs)
         | Inr txt \<Rightarrow> (txt @ rest, evs))"

definition ExtractTextFromPDFFilePath :: "world \<Rightarrow> string \<Rightarrow> (goerr + string) \<times> event list" where
  "ExtractTextFromPDFFilePath w filePath =
     (case pdf_Open w filePath of
        Inl err \<Rightarrow>
          (Inl (Errorf ''failed to open PDF file %s for extraction: %w''
                  [ArgS filePath, ArgE err]),
           [EvPdfOpen filePath])
      | Inr pages \<Rightarrow>
          if length pages = 0 then (Inr [], [EvPdfOpen filePath])
          else let (txt, evs) = extract_pages filePath 1 pages
               in (Inr txt, EvPdfOpen filePath # evs))"

subsection \<open>internal/tts: SynthesizeLongAudio\<close>

text \<open>
  The log lines of a completed operation: the metadata is decoded when there is one,
  and a failure to decode it is a warning.
\<close>

definition completion_log :: "world \<Rightarrow> string \<Rightarrow> Operation \<Rightarrow> event list" where
  "completion_log w opName latestOp =
     (case Metadata latestOp of
        None \<Rightarrow> []
      | Some packed \<Rightarrow>
          (case UnmarshalTo w packed of
             Inl err \<Rightarrow>
               [EvPrintf ''Warning: Could not unmarshal operation metadata for %s: %v''
                  [ArgS opName, ArgE err]]
           | Inr metadata \<Rightarrow>
               [EvPrintf ''Long Audio Synthesis complete. Metadata: %s'' [ArgS metadata]]))
     @ [EvPrintf ''Long Audio Synthesis operation %s completed successfully.'' [ArgS opName]]"

text \<open>
  The \<^verbatim>\<open>for\<close> loop. \<open>i\<close> counts the status fetches made so far and \<open>tr\<close> is the trace so
  far. The loop has no bound: it returns when a fetch fails or reports \<^verbatim>\<open>Done\<close>, and
  the value is \<open>None\<close> when that never happens. The result is the error (\<open>None\<close> for
  nil) and the trace.
\<close>

partial_function (option) poll ::
  "world \<Rightarrow> string \<Rightarrow> nat \<Rightarrow> event list \<Rightarrow> (goerr option \<times> event list) option" where
  "poll w opName i tr =
     (case GetOperation w opName i of
        Inl err \<Rightarrow>
          Some (Some (Errorf ''failed to get operation status for %s: %w''
                        [ArgS opName, ArgE err]),
                tr @ [EvGetOperation opName])
      | Inr latestOp \<Rightarrow>
          if Done latestOp then
            (case OpError latestOp of
               Some message \<Rightarrow>
                 Some (Some (Errorf ''long audio synthesis operation failed for %s: %v''
                               [ArgS opName, ArgS message]),
                       tr @ [EvGetOperation opName])
             | None \<Rightarrow>
                 Some (None, tr @ [EvGetOperation opName] @ completion_log w opName latestOp))
          else poll w opName (Suc i)
                 (tr @ [EvGetOperation opName,
                        EvPrintf ''Operation %s not yet complete. Retrying in 10 seconds...''
                          [ArgS opName],
                        EvSleep 10]))"

declare poll.simps [code]

definition request :: "string \<Rightarrow> string \<Rightarrow> string \<Rightarrow> string \<Rightarrow> string \<Rightarrow> SynthesizeLongAudioRequest" where
  "request txt projectNumber location outputGCSURI voiceName =
     \<lparr>InputText = txt,
      Encoding = LINEAR16,
      SampleRateHertz = 16000,
      LanguageCode = ''en-US'',
      SsmlGender = NEUTRAL,
      VoiceName = voiceName,
      OutputGcsUri = outputGCSURI,
      Parent = ''projects/'' @ projectNumber @ ''/locations/'' @ location\<rparr>"

definition SynthesizeLongAudio ::
  "world \<Rightarrow> string \<Rightarrow> string \<Rightarrow> string \<Rightarrow> string \<Rightarrow> string \<Rightarrow> (goerr option \<times> event list) option" where
  "SynthesizeLongAudio w txt projectNumber location outputGCSURI voiceName =
     (let req = request txt projectNumber location outputGCSURI voiceName
      in case Submit w req of
           Inl err \<Rightarrow>
             Some (Some (Errorf ''failed to initiate long audio synthesis: %w'' [ArgE err]),
                   [EvPrintf ''Initiating Long Audio Synthesis...'' [],
                    EvSynthesizeLongAudio req])
         | Inr opName \<Rightarrow>
             poll w opName 0
               [EvPrintf ''Initiating Long Audio Synthesis...'' [],
                EvSynthesizeLongAudio req,
                EvPrintf ''Long Audio Synthesis operation started: %s. Waiting for completion...''
                  [ArgS opName]])"

subsection \<open>function.go: processPDFToSpeechHandler\<close>

text \<open>
  Lines 44 to 62 of the handler, the decision on the event: the two tests that skip
  it, each with the line it logs, and otherwise the name of the output object and its
  URI.
\<close>

datatype decision = Skip event | Proceed string string

definition decide :: "StorageObjectData \<Rightarrow> decision" where
  "decide e =
     (if \<not> HasSuffix (ToLower (Name e)) ''.pdf'' then
        Skip (EvPrintf ''Skipping non-PDF file: %s. Content type: %s''
                [ArgS (Name e), ArgS (ContentType e)])
      else if \<not> HasPrefix (Name e) ''pdf-input/'' then
        Skip (EvPrintf ''Skipping PDF file not in 'pdf-input/' folder: %s'' [ArgS (Name e)])
      else
        let baseFileName = Base (Name e);
            outputAudioObjectName =
              ''mp3-output/'' @ TrimSuffix baseFileName (Ext baseFileName) @ ''.mp3'';
            outputGCSURI = ''gs://'' @ Bucket e @ ''/'' @ outputAudioObjectName
        in Proceed outputAudioObjectName outputGCSURI)"

text \<open>
  Lines 91 to 110, what the handler does once the file is downloaded and the clean-up
  is deferred: the extraction, the test for a text of white space only, the synthesis.
\<close>

definition process_downloaded ::
  "world \<Rightarrow> StorageObjectData \<Rightarrow> string \<Rightarrow> string \<Rightarrow> string \<Rightarrow> string \<Rightarrow> string \<Rightarrow>
     (goerr option \<times> event list) option" where
  "process_downloaded w e tempPDFPath projectNumber location outputGCSURI ttsVoiceName =
     (case ExtractTextFromPDFFilePath w tempPDFPath of
        (Inl err, evs) \<Rightarrow>
          Some (Some (Errorf ''failed to extract text from PDF %s: %w''
                        [ArgS (Name e), ArgE err]),
                evs)
      | (Inr extractedText, evs) \<Rightarrow>
          if TrimSpace extractedText = [] then
            Some (None,
                  evs @ [EvPrintf ''No text extracted from PDF: %s. Skipping TTS.''
                           [ArgS (Name e)]])
          else
            (case SynthesizeLongAudio w extractedText projectNumber location outputGCSURI
                    ttsVoiceName of
               None \<Rightarrow> None
             | Some (Some err, called) \<Rightarrow>
                 Some (Some (Errorf ''failed to synthesize speech for %s: %w''
                               [ArgS (Name e), ArgE err]),
                       evs @ [EvPrintf ''Text extracted from PDF. Length: %d characters.''
                                [ArgN (length extractedText)]]
                           @ called)
             | Some (None, called) \<Rightarrow>
                 Some (None,
                       evs @ [EvPrintf ''Text extracted from PDF. Length: %d characters.''
                                [ArgN (length extractedText)]]
                           @ called
                           @ [EvPrintf ''Successfully processed %s. Output: %s''
                                [ArgS (Name e), ArgS outputGCSURI]])))"

text \<open>
  The handler. The result is \<open>None\<close> when the handler does not return (the poller
  waits for ever); otherwise it is the error it returns (\<open>None\<close> for nil) and the trace.
  The deferred clean-up runs when the handler returns after the download, whatever it
  returns: its events end the trace.
\<close>

definition processPDFToSpeechHandler ::
  "world \<Rightarrow> StorageObjectData \<Rightarrow> (goerr option \<times> event list) option" where
  "processPDFToSpeechHandler w e =
     (let received =
            EvPrintf ''Received event for file: %s in bucket: %s with content type: %s''
              [ArgS (Name e), ArgS (Bucket e), ArgS (ContentType e)]
      in case decide e of
           Skip line \<Rightarrow> Some (None, [received, line])
         | Proceed outputAudioObjectName outputGCSURI \<Rightarrow>
            (let projectNumber = Getenv (environ w) ''PROJECT_NUMBER'';
                 location = Getenv (environ w) ''GCP_LOCATION''
             in if projectNumber = [] \<or> location = [] then
                  Some (Some (Errorf ''environment variables PROJECT_NUMBER and GCP_LOCATION must be set in the Cloud Function configuration'' []),
                        [received])
                else
                 (let unset = (Getenv (environ w) ''TTS_VOICE_NAME'' = []);
                      ttsVoiceName =
                        (if unset then ''en-US-Wavenet-D''
                         else Getenv (environ w) ''TTS_VOICE_NAME'');
                      started =
                        received #
                        (if unset
                         then [EvPrintf ''TTS_VOICE_NAME environment variable not set. Using default 'en-US-Wavenet-D'.'' []]
                         else []) @
                        [EvPrintf ''Processing PDF: %s in bucket: %s''
                           [ArgS (Name e), ArgS (Bucket e)],
                         EvPrintf ''Target output: %s'' [ArgS outputGCSURI],
                         EvPrintf ''Using Project Number: %s, Location: %s, Voice: %s''
                           [ArgS projectNumber, ArgS location, ArgS ttsVoiceName]]
                  in case DownloadFileToTemp w (Bucket e) (Name e) of
                       (Inl err, evs) \<Rightarrow>
                         Some (Some (Errorf ''failed to download PDF %s: %w''
                                       [ArgS (Name e), ArgE err]),
                               started @ evs)
                     | (Inr (tempPDFPath, cleanupTempFile), evs) \<Rightarrow>
                         (case process_downloaded w e tempPDFPath projectNumber location
                                 outputGCSURI ttsVoiceName of
                            None \<Rightarrow> None
                          | Some (result, body) \<Rightarrow>
                              Some (result, started @ evs @ body @ cleanupTempFile)))))"

subsection \<open>Reading a trace\<close>

text \<open>The lines of the log, the files removed, the requests handed to the speech backend.\<close>

fun is_log :: "event \<Rightarrow> bool" where
  "is_log (EvPrintf fmt args) = True"
| "is_log ev = False"

fun removed :: "event \<Rightarrow> string list" where
  "removed (EvRemove f) = [f]"
| "removed ev = []"

definition removals :: "event list \<Rightarrow> string list" where
  "removals tr = concat (map removed tr)"

fun handed :: "event \<Rightarrow> SynthesizeLongAudioRequest list" where
  "handed (EvSynthesizeLongAudio req) = [req]"
| "handed ev = []"

definition requests :: "event list \<Rightarrow> SynthesizeLongAudioRequest list" where
  "requests tr = concat (map handed tr)"

text \<open>The calls of the speech backend and the sleeps of the poller.\<close>

fun is_synthesis :: "event \<Rightarrow> bool" where
  "is_synthesis (EvSynthesizeLongAudio req) = True"
| "is_synthesis (EvGetOperation opName) = True"
| "is_synthesis (EvSleep seconds) = True"
| "is_synthesis ev = False"

text \<open>What the poller does apart from logging: a fetch of the status or a sleep.\<close>

fun is_polling :: "event \<Rightarrow> bool" where
  "is_polling (EvPrintf fmt args) = True"
| "is_polling (EvGetOperation opName) = True"
| "is_polling (EvSleep seconds) = True"
| "is_polling ev = False"

text \<open>
  The trace of a submission that succeeds, and of one turn of the loop on an operation
  that is not done: a fetch of the status, a line of the log, a sleep of ten seconds.
\<close>

definition submitted :: "SynthesizeLongAudioRequest \<Rightarrow> string \<Rightarrow> event list" where
  "submitted req opName =
     [EvPrintf ''Initiating Long Audio Synthesis...'' [],
      EvSynthesizeLongAudio req,
      EvPrintf ''Long Audio Synthesis operation started: %s. Waiting for completion...''
        [ArgS opName]]"

definition cycle :: "string \<Rightarrow> event list" where
  "cycle opName =
     [EvGetOperation opName,
      EvPrintf ''Operation %s not yet complete. Retrying in 10 seconds...'' [ArgS opName],
      EvSleep 10]"

text \<open>A status fetch is terminal when it fails or reports \<^verbatim>\<open>Done\<close>.\<close>

definition terminal :: "goerr + Operation \<Rightarrow> bool" where
  "terminal r = (case r of Inl err \<Rightarrow> True | Inr latestOp \<Rightarrow> Done latestOp)"

text \<open>An outcome of the handler without the lines of the log.\<close>

definition calls :: "(goerr option \<times> event list) option \<Rightarrow> (goerr option \<times> event list) option" where
  "calls outcome =
     map_option (\<lambda>(result, tr). (result, filter (\<lambda>ev. \<not> is_log ev) tr)) outcome"

text \<open>The error of a configuration that lacks a required variable, and the first line of the log.\<close>

definition configuration_error :: goerr where
  "configuration_error =
     Errorf ''environment variables PROJECT_NUMBER and GCP_LOCATION must be set in the Cloud Function configuration'' []"




definition received :: "StorageObjectData \<Rightarrow> event" where
  "received e =
     EvPrintf ''Received event for file: %s in bucket: %s with content type: %s''
       [ArgS (Name e), ArgS (Bucket e), ArgS (ContentType e)]"

subsection \<open>Test doubles\<close>

text \<open>
  A world where the storage and the file system work, the PDF has the given pages, the
  submission gives the operation \<^verbatim>\<open>op-1\<close>, the status fetches answer as given, and the
  metadata does not decode.
\<close>

definition stub ::
  "(string \<rightharpoonup> string) \<Rightarrow> (goerr + string) list \<Rightarrow> (nat \<Rightarrow> goerr + Operation) \<Rightarrow> world" where
  "stub env pages answers =
     \<lparr>environ = env,
      NewReader = (\<lambda>bucketName objectName. Inr ''%PDF-1.4''),
      CreateTemp = (\<lambda>pattern. Inr (''/tmp/'' @ pattern)),
      io_Copy = (\<lambda>tempName rc. None),
      os_Remove = (\<lambda>tempName. None),
      IsNotExist = (\<lambda>err. False),
      pdf_Open = (\<lambda>filePath. Inr pages),
      Submit = (\<lambda>req. Inr ''op-1''),
      GetOperation = (\<lambda>opName i. answers i),
      UnmarshalTo = (\<lambda>packed. Inl (LibraryError ''cannot parse invalid wire-format data''))\<rparr>"

definition configured :: "string \<rightharpoonup> string" where
  "configured = [''PROJECT_NUMBER'' \<mapsto> ''42'', ''GCP_LOCATION'' \<mapsto> ''us-central1'']"

definition report :: StorageObjectData where
  "report = \<lparr>Bucket = ''bkt'', Name = ''pdf-input/report.pdf'', ContentType = ''application/pdf''\<rparr>"

text \<open>Not done twice, then done with an error; and not done once, then done with metadata.\<close>

definition fails_third :: "nat \<Rightarrow> goerr + Operation" where
  "fails_third i =
     (if i < 2 then Inr \<lparr>Done = False, OpError = None, Metadata = None\<rparr>
      else Inr \<lparr>Done = True, OpError = Some ''quota exceeded'', Metadata = None\<rparr>)"

definition completes_second :: "nat \<Rightarrow> goerr + Operation" where
  "completes_second i =
     (if i < 1 then Inr \<lparr>Done = False, OpError = None, Metadata = None\<rparr>
      else Inr \<lparr>Done = True, OpError = None, Metadata = Some ''garbled''\<rparr>)"


text \<open>
  The voice the handler uses (lines 72 to 77) and the lines it has logged when it starts
  the download (lines 42 and 75 to 81).
\<close>

definition voice_of :: "world \<Rightarrow> string" where
  "voice_of w =
     (if Getenv (environ w) ''TTS_VOICE_NAME'' = [] then ''en-US-Wavenet-D''
      else Getenv (environ w) ''TTS_VOICE_NAME'')"

definition started :: "world \<Rightarrow> StorageObjectData \<Rightarrow> string \<Rightarrow> event list" where
  "started w e outputGCSURI =
     received e #
     (if Getenv (environ w) ''TTS_VOICE_NAME'' = []
      then [EvPrintf ''TTS_VOICE_NAME environment variable not set. Using default 'en-US-Wavenet-D'.'' []]
      else []) @
     [EvPrintf ''Processing PDF: %s in bucket: %s'' [ArgS (Name e), ArgS (Bucket e)],
      EvPrintf ''Target output: %s'' [ArgS outputGCSURI],
      EvPrintf ''Using Project Number: %s, Location: %s, Voice: %s''
        [ArgS (Getenv (environ w) ''PROJECT_NUMBER''),
         ArgS (Getenv (environ w) ''GCP_LOCATION''), ArgS (voice_of w)]]"

section \<open>Properties\<close>

subsection \<open>The key of an accepted event\<close>

text \<open>
  A key that ends in \<^verbatim>\<open>.pdf\<close>, in any case, and begins with \<^verbatim>\<open>pdf-input/\<close> is a
  directory, a separator, a stem without separator and the four bytes of the
  extension; the stem is what \<open>Base\<close>, \<open>Ext\<close> and \<open>TrimSuffix\<close> leave of it.
\<close>

lemma lower_byte_dot: "lower_byte c = CHR ''.'' \<Longrightarrow> c = CHR ''.''"
proof (rule ccontr)
  assume l: "lower_byte c = CHR ''.''" and n: "c \<noteq> CHR ''.''"
  let ?n = "of_char c :: nat"
  from l n have r: "65 \<le> ?n \<and> ?n \<le> 90" and "char_of (?n + 32) = CHR ''.''"
    by (auto simp: lower_byte_def Let_def split: if_splits)
  then have "of_char (char_of (?n + 32) :: char) = (of_char (CHR ''.'') :: nat)" by simp
  then have "(?n + 32) mod 256 = 46" by (simp add: of_char_of)
  with r show False by simp
qed

lemma lower_byte_letter:
  assumes "lower_byte c = d" and "d \<in> {CHR ''p'', CHR ''d'', CHR ''f''}"
  shows "c \<noteq> CHR ''/'' \<and> c \<noteq> CHR ''.''"
  using assms by (auto simp: lower_byte_def)

lemma ToLower_pdf:
  assumes "ToLower x = ''.pdf''"
  shows "\<exists>c1 c2 c3. x = [CHR ''.'', c1, c2, c3] \<and> CHR ''/'' \<notin> {c1, c2, c3} \<and> CHR ''.'' \<notin> {c1, c2, c3}"
proof -
  from assms have "length (ToLower x) = length ''.pdf''" by simp
  then have "length x = 4" by (simp add: ToLower_def)
  then obtain a b c d where x: "x = [a, b, c, d]"
    by (auto simp: length_Suc_conv numeral_eq_Suc)
  with assms have l: "lower_byte a = CHR ''.''" "lower_byte b = CHR ''p''" "lower_byte c = CHR ''d''" "lower_byte d = CHR ''f''"
    by (simp_all add: ToLower_def)
  from l(1) have "a = CHR ''.''" by (rule lower_byte_dot)
  moreover from l(2) have "b \<noteq> CHR ''/'' \<and> b \<noteq> CHR ''.''" by (rule lower_byte_letter) simp
  moreover from l(3) have "c \<noteq> CHR ''/'' \<and> c \<noteq> CHR ''.''" by (rule lower_byte_letter) simp
  moreover from l(4) have "d \<noteq> CHR ''/'' \<and> d \<noteq> CHR ''.''" by (rule lower_byte_letter) simp
  ultimately show ?thesis using x by auto
qed

lemma Base_stem:
  assumes "CHR ''/'' \<notin> set elem" and "elem \<noteq> []"
  shows "Base (d @ ''/'' @ elem) = elem"
proof -
  have "rev elem \<noteq> []" using assms by simp
  then obtain c cs where r: "rev elem = c # cs" by (cases "rev elem") auto
  then have "c \<in> set elem" by (metis list.set_intros(1) set_rev)
  with assms have c: "c \<noteq> CHR ''/''" by auto
  have tw: "takeWhile (\<lambda>c. c \<noteq> CHR ''/'') (rev elem @ CHR ''/'' # rev d) = rev elem"
    using assms(1) by (subst takeWhile_append2) auto
  show ?thesis using assms r c tw
    by (simp add: Base_def Let_def)
qed

lemma ext_scan_no_dot:
  "CHR ''/'' \<notin> set xs \<Longrightarrow> CHR ''.'' \<notin> set xs \<Longrightarrow>
   ext_scan (xs @ CHR ''.'' # rest) seen = CHR ''.'' # rev xs @ seen"
  by (induction xs arbitrary: seen) auto

lemma Ext_stem:
  assumes "CHR ''/'' \<notin> set x" and "CHR ''.'' \<notin> set x"
  shows "Ext (stem @ CHR ''.'' # x) = CHR ''.'' # x"
  using ext_scan_no_dot [of "rev x" "rev stem" "[]"] assms by (simp add: Ext_def)

lemma TrimSuffix_append: "TrimSuffix (stem @ x) x = stem"
  by (simp add: TrimSuffix_def HasSuffix_def)

lemma stem_of_key:
  assumes "CHR ''/'' \<notin> set stem" and "ToLower x = ''.pdf''"
  shows "TrimSuffix (Base (d @ ''/'' @ stem @ x)) (Ext (Base (d @ ''/'' @ stem @ x))) = stem"
proof -
  from ToLower_pdf [OF assms(2)] obtain c1 c2 c3 where
    x: "x = CHR ''.'' # [c1, c2, c3]" and s: "CHR ''/'' \<notin> set [c1, c2, c3]" and t: "CHR ''.'' \<notin> set [c1, c2, c3]" by auto
  have "CHR ''/'' \<notin> set (stem @ x)" using assms(1) x s by auto
  then have b: "Base (d @ ''/'' @ stem @ x) = stem @ x" using Base_stem [of "stem @ x" d] x by simp
  have "Ext (stem @ x) = x" unfolding x by (rule Ext_stem [OF s t])
  with b show ?thesis by (simp add: TrimSuffix_append)
qed

lemma split_last_slash:
  assumes "CHR ''/'' \<in> set k"
  shows "\<exists>d elem. k = d @ ''/'' @ elem \<and> CHR ''/'' \<notin> set elem"
proof -
  from assms have "CHR ''/'' \<in> set (rev k)" by simp
  from split_list_first [OF this] obtain ys zs where
    "rev k = ys @ CHR ''/'' # zs" "CHR ''/'' \<notin> set ys" by blast
  then have "k = rev zs @ ''/'' @ rev ys \<and> CHR ''/'' \<notin> set (rev ys)"
    by (metis append_Cons append_Nil rev.simps(2) rev_append rev_rev_ident set_rev append_assoc)
  then show ?thesis by blast
qed

lemma accepted_key_shape:
  assumes suf: "HasSuffix (ToLower k) ''.pdf''" and pre: "HasPrefix k ''pdf-input/''"
  shows "\<exists>d stem x. k = d @ ''/'' @ stem @ x \<and> CHR ''/'' \<notin> set stem \<and> ToLower x = ''.pdf''"
proof -
  let ?x = "drop (length k - 4) k" and ?p = "take (length k - 4) k"
  have l4: "length ''.pdf'' = 4" by simp
  note suf' = suf [unfolded HasSuffix_def l4]
  from suf' have len: "4 \<le> length k" and lx: "ToLower ?x = ''.pdf''"
    by (simp_all add: ToLower_def drop_map)
  from ToLower_pdf [OF lx] have nx: "CHR ''/'' \<notin> set ?x" by auto
  have l10: "length ''pdf-input/'' = 10" by simp
  from pre [unfolded HasPrefix_def l10] have "take 10 k = ''pdf-input/''" by simp
  then have "CHR ''/'' \<in> set (take 10 k)" by simp
  then have "CHR ''/'' \<in> set k" by (rule in_set_takeD)
  moreover have "k = ?p @ ?x" by simp
  ultimately have "CHR ''/'' \<in> set ?p" using nx by (metis Un_iff set_append)
  from split_last_slash [OF this] obtain d stem where
    p: "?p = d @ ''/'' @ stem" and ns: "CHR ''/'' \<notin> set stem" by blast
  have "k = d @ ''/'' @ stem @ ?x" using p by (metis append_take_drop_id append_assoc)
  with ns lx show ?thesis by blast
qed

subsection \<open>The loop of the poller\<close>

text \<open>
  A fetch that reports an operation not done costs one turn of the loop; the loop only
  adds fetches, sleeps and lines of the log to the trace; and it reads nothing of the
  world but the status fetches and the decoder of the metadata.
\<close>

lemma poll_pending:
  "GetOperation w n i = Inr latestOp \<Longrightarrow> \<not> Done latestOp \<Longrightarrow>
   poll w n i tr = poll w n (Suc i) (tr @ cycle n)"
  by (subst poll.simps) (simp add: cycle_def)

lemma poll_run:
  "\<forall>j<k. \<exists>latestOp. GetOperation w n (i + j) = Inr latestOp \<and> \<not> Done latestOp \<Longrightarrow>
   poll w n i tr = poll w n (i + k) (tr @ concat (replicate k (cycle n)))"
proof (induction k arbitrary: i tr)
  case 0
  then show ?case by simp
next
  case (Suc k)
  from Suc.prems obtain latestOp where "GetOperation w n i = Inr latestOp" "\<not> Done latestOp"
    by force
  then have "poll w n i tr = poll w n (Suc i) (tr @ cycle n)" by (rule poll_pending)
  also have "\<dots> = poll w n (Suc i + k) ((tr @ cycle n) @ concat (replicate k (cycle n)))"
  proof (rule Suc.IH, intro allI impI)
    fix j assume "j < k"
    then have "Suc j < Suc k" by simp
    with Suc.prems show "\<exists>latestOp. GetOperation w n (Suc i + j) = Inr latestOp \<and> \<not> Done latestOp"
      by (metis add_Suc_shift)
  qed
  finally show ?case by simp
qed

lemma completion_log_polling: "ev \<in> set (completion_log w n latestOp) \<Longrightarrow> is_polling ev"
proof (cases "Metadata latestOp")
  case None
  then show "ev \<in> set (completion_log w n latestOp) \<Longrightarrow> is_polling ev"
    by (auto simp: completion_log_def)
next
  case (Some packed)
  then show "ev \<in> set (completion_log w n latestOp) \<Longrightarrow> is_polling ev"
    by (cases "UnmarshalTo w packed") (auto simp: completion_log_def)
qed

lemma cycle_polling: "ev \<in> set (cycle n) \<Longrightarrow> is_polling ev"
  by (auto simp: cycle_def)

lemma poll_events:
  assumes "poll w n i tr = Some y"
  shows "\<exists>evs. snd y = tr @ evs \<and> (\<forall>ev\<in>set evs. is_polling ev)"
proof (rule poll.raw_induct
    [where P = "\<lambda>w n i tr y. \<exists>evs. snd y = tr @ evs \<and> (\<forall>ev\<in>set evs. is_polling ev)", OF _ assms])
  fix f :: "world \<Rightarrow> string \<Rightarrow> nat \<Rightarrow> event list \<Rightarrow> (goerr option \<times> event list) option"
    and w :: world and n i tr y
  assume IH: "\<And>w0 n0 i0 tr0 y0. f w0 n0 i0 tr0 = Some y0 \<Longrightarrow>
      \<exists>evs. snd y0 = tr0 @ evs \<and> (\<forall>ev\<in>set evs. is_polling ev)"
  assume step: "(case GetOperation w n i of
        Inl err \<Rightarrow>
          Some (Some (Errorf ''failed to get operation status for %s: %w''
                        [ArgS n, ArgE err]),
                tr @ [EvGetOperation n])
      | Inr latestOp \<Rightarrow>
          if Done latestOp then
            (case OpError latestOp of
               Some message \<Rightarrow>
                 Some (Some (Errorf ''long audio synthesis operation failed for %s: %v''
                               [ArgS n, ArgS message]),
                       tr @ [EvGetOperation n])
             | None \<Rightarrow>
                 Some (None, tr @ [EvGetOperation n] @ completion_log w n latestOp))
          else f w n (Suc i)
                 (tr @ [EvGetOperation n,
                        EvPrintf ''Operation %s not yet complete. Retrying in 10 seconds...''
                          [ArgS n],
                        EvSleep 10])) = Some y"
  show "\<exists>evs. snd y = tr @ evs \<and> (\<forall>ev\<in>set evs. is_polling ev)"
  proof (cases "GetOperation w n i")
    case (Inl err)
    with step have "snd y = tr @ [EvGetOperation n]" by auto
    then show ?thesis by simp
  next
    case (Inr latestOp)
    show ?thesis
    proof (cases "Done latestOp")
      case True
      with Inr step have "snd y = tr @ [EvGetOperation n]
          \<or> snd y = tr @ EvGetOperation n # completion_log w n latestOp"
        by (auto split: option.splits)
      then show ?thesis
      proof
        assume "snd y = tr @ [EvGetOperation n]"
        then show ?thesis by simp
      next
        assume "snd y = tr @ EvGetOperation n # completion_log w n latestOp"
        moreover have "\<forall>ev\<in>set (EvGetOperation n # completion_log w n latestOp). is_polling ev"
          using completion_log_polling [of _ w n latestOp] by auto
        ultimately show ?thesis by blast
      qed
    next
      case False
      with Inr step have "f w n (Suc i) (tr @ cycle n) = Some y" by (simp add: cycle_def)
      from IH [OF this] obtain evs where
        e: "snd y = (tr @ cycle n) @ evs" and p: "\<forall>ev\<in>set evs. is_polling ev" by blast
      have "\<forall>ev\<in>set (cycle n @ evs). is_polling ev"
        using p cycle_polling [of _ n] by auto
      with e show ?thesis by (metis append_assoc)
    qed
  qed
qed

lemma completion_log_world:
  "UnmarshalTo w' = UnmarshalTo w \<Longrightarrow> completion_log w' n latestOp = completion_log w n latestOp"
  by (cases "Metadata latestOp") (simp_all add: completion_log_def)

lemma poll_world_Some:
  assumes "poll w n i tr = Some y"
  shows "GetOperation w' = GetOperation w \<longrightarrow> UnmarshalTo w' = UnmarshalTo w \<longrightarrow>
   poll w' n i tr = Some y"
proof (rule poll.raw_induct
    [where P = "\<lambda>w n i tr y. GetOperation w' = GetOperation w \<longrightarrow> UnmarshalTo w' = UnmarshalTo w \<longrightarrow>
   poll w' n i tr = Some y", OF _ assms], intro impI)
  fix f :: "world \<Rightarrow> string \<Rightarrow> nat \<Rightarrow> event list \<Rightarrow> (goerr option \<times> event list) option"
    and w :: world and n i tr y
  assume IH: "\<And>w0 n0 i0 tr0 y0. f w0 n0 i0 tr0 = Some y0 \<Longrightarrow>
      GetOperation w' = GetOperation w0 \<longrightarrow> UnmarshalTo w' = UnmarshalTo w0 \<longrightarrow>
      poll w' n0 i0 tr0 = Some y0"
  assume step: "(case GetOperation w n i of
        Inl err \<Rightarrow>
          Some (Some (Errorf ''failed to get operation status for %s: %w''
                        [ArgS n, ArgE err]),
                tr @ [EvGetOperation n])
      | Inr latestOp \<Rightarrow>
          if Done latestOp then
            (case OpError latestOp of
               Some message \<Rightarrow>
                 Some (Some (Errorf ''long audio synthesis operation failed for %s: %v''
                               [ArgS n, ArgS message]),
                       tr @ [EvGetOperation n])
             | None \<Rightarrow>
                 Some (None, tr @ [EvGetOperation n] @ completion_log w n latestOp))
          else f w n (Suc i)
                 (tr @ [EvGetOperation n,
                        EvPrintf ''Operation %s not yet complete. Retrying in 10 seconds...''
                          [ArgS n],
                        EvSleep 10])) = Some y"
  assume g: "GetOperation w' = GetOperation w" and u: "UnmarshalTo w' = UnmarshalTo w"
  note c = completion_log_world [OF u]
  show "poll w' n i tr = Some y"
  proof (cases "GetOperation w n i")
    case (Inl err)
    with step g show ?thesis by (subst poll.simps) simp
  next
    case (Inr latestOp)
    show ?thesis
    proof (cases "Done latestOp")
      case True
      with Inr step g c show ?thesis
        by (subst poll.simps) (cases "OpError latestOp", simp_all)
    next
      case False
      with Inr step have "f w n (Suc i) (tr @ cycle n) = Some y" by (simp add: cycle_def)
      from IH [OF this] g u have "poll w' n (Suc i) (tr @ cycle n) = Some y" by simp
      with Inr False g show ?thesis by (subst poll.simps) (simp add: cycle_def)
    qed
  qed
qed

lemma poll_world:
  assumes g: "GetOperation w' = GetOperation w" and u: "UnmarshalTo w' = UnmarshalTo w"
  shows "poll w' n i tr = poll w n i tr"
proof (cases "poll w n i tr")
  case (Some y)
  from poll_world_Some [OF this] g u show ?thesis using Some by simp
next
  case None
  show ?thesis
  proof (cases "poll w' n i tr")
    case (Some y)
    from poll_world_Some [OF this, of w] g u have "poll w n i tr = Some y" by simp
    with None show ?thesis by simp
  next
    case None': None
    with None show ?thesis by simp
  qed
qed

lemma poll_terminal:
  assumes "terminal (GetOperation w n k)"
  shows "\<exists>result logs.
           poll w n k tr = Some (result, tr @ EvGetOperation n # logs)
           \<and> (\<forall>ev\<in>set logs. is_log ev)
           \<and> (\<forall>latestOp message.
                 GetOperation w n k = Inr latestOp \<and> OpError latestOp = Some message \<longrightarrow>
                 result = Some (Errorf ''long audio synthesis operation failed for %s: %v''
                                  [ArgS n, ArgS message])
                 \<and> logs = [])
           \<and> (\<forall>latestOp.
                 GetOperation w n k = Inr latestOp \<and> OpError latestOp = None \<longrightarrow>
                 result = None \<and> logs = completion_log w n latestOp)"
proof (cases "GetOperation w n k")
  case (Inl err)
  then show ?thesis by (subst poll.simps) simp
next
  case (Inr latestOp)
  with assms have d: "Done latestOp" by (simp add: terminal_def)
  show ?thesis
  proof (cases "OpError latestOp")
    case None
    have "\<forall>ev\<in>set (completion_log w n latestOp). is_log ev"
    proof (cases "Metadata latestOp")
      case None
      then show ?thesis by (simp add: completion_log_def)
    next
      case (Some packed)
      then show ?thesis by (cases "UnmarshalTo w packed") (simp_all add: completion_log_def)
    qed
    with Inr d None show ?thesis by (subst poll.simps) simp
  next
    case (Some message)
    with Inr d show ?thesis by (subst poll.simps) simp
  qed
qed

lemma SynthesizeLongAudio_polls:
  assumes "Submit w (request txt projectNumber location uri voice) = Inr opName"
    and "\<forall>i<k. \<exists>latestOp. GetOperation w opName i = Inr latestOp \<and> \<not> Done latestOp"
  shows "SynthesizeLongAudio w txt projectNumber location uri voice =
         poll w opName k
           (submitted (request txt projectNumber location uri voice) opName
            @ concat (replicate k (cycle opName)))"
proof -
  have "SynthesizeLongAudio w txt projectNumber location uri voice =
        poll w opName 0 (submitted (request txt projectNumber location uri voice) opName)"
    using assms(1) by (simp add: SynthesizeLongAudio_def submitted_def Let_def)
  also have "\<dots> = poll w opName (0 + k)
           (submitted (request txt projectNumber location uri voice) opName
            @ concat (replicate k (cycle opName)))"
    by (rule poll_run) (use assms(2) in simp)
  finally show ?thesis by simp
qed

subsection \<open>White space\<close>

text \<open>
  No encoding of a white space rune is the beginning of another, so a text that is a
  sequence of them is trimmed to nothing.
\<close>

lemma leading_Nil: "leading encs [] = None"
  by (simp add: leading_def find_None_iff)

lemma space_encodings_prefix_free:
  "\<forall>p\<in>set space_encodings. \<forall>q\<in>set space_encodings. prefix q p \<longrightarrow> q = p"
  by code_simp

lemma space_encodings_nonempty: "\<forall>p\<in>set space_encodings. p \<noteq> []"
  by code_simp

lemma leading_space:
  assumes "p \<in> set space_encodings"
  shows "leading space_encodings (p @ rest) = Some p"
proof -
  from assms space_encodings_nonempty have ne: "p \<noteq> []" by blast
  with assms have "leading space_encodings (p @ rest) \<noteq> None"
    by (auto simp: leading_def find_None_iff)
  then obtain q where q: "leading space_encodings (p @ rest) = Some q" by blast
  then have m: "q \<in> set space_encodings" and pq: "prefix q (p @ rest)"
    by (auto simp: leading_def find_Some_iff)
  have "prefix p (p @ rest)" by simp
  with pq have "prefix q p \<or> prefix p q" by (rule prefix_same_cases)
  with assms m space_encodings_prefix_free have "q = p" by blast
  with q show ?thesis by simp
qed

lemma trim_left_spaces:
  "set spaces \<subseteq> set space_encodings \<Longrightarrow> trim_left space_encodings (concat spaces) = []"
proof (induction spaces)
  case Nil
  show ?case by (subst trim_left.simps) (simp add: leading_Nil)
next
  case (Cons p ps)
  then have "leading space_encodings (p @ concat ps) = Some p"
    by (simp add: leading_space)
  then have "trim_left space_encodings (concat (p # ps)) = trim_left space_encodings (concat ps)"
    by (subst trim_left.simps) simp
  with Cons show ?case by simp
qed

lemma TrimSpace_spaces:
  assumes "set spaces \<subseteq> set space_encodings"
  shows "TrimSpace (concat spaces) = []"
proof -
  have "trim_left (map rev space_encodings) [] = []"
    by (subst trim_left.simps) (simp add: leading_Nil)
  with trim_left_spaces [OF assms] show ?thesis by (simp add: TrimSpace_def)
qed

subsection \<open>The traces of the stages\<close>

text \<open>
  Which stage removes a file and which hands a request to the backend: the download
  that succeeds and the extraction do neither, the clean-up removes the temporary file
  once, the synthesis hands the one request it builds.
\<close>

lemma removals_Nil [simp]: "removals [] = []"
  by (simp add: removals_def)

lemma removals_Cons [simp]: "removals (ev # tr) = removed ev @ removals tr"
  by (simp add: removals_def)

lemma removals_append [simp]: "removals (a @ b) = removals a @ removals b"
  by (simp add: removals_def)

lemma requests_Nil [simp]: "requests [] = []"
  by (simp add: requests_def)

lemma requests_Cons [simp]: "requests (ev # tr) = handed ev @ requests tr"
  by (simp add: requests_def)

lemma requests_append [simp]: "requests (a @ b) = requests a @ requests b"
  by (simp add: requests_def)

lemma polling_quiet:
  "\<forall>ev\<in>set evs. is_polling ev \<Longrightarrow> removals evs = [] \<and> requests evs = []"
proof (induction evs)
  case Nil
  show ?case by simp
next
  case (Cons ev evs)
  then show ?case by (cases ev) simp_all
qed

lemma log_quiet:
  "\<forall>ev\<in>set evs. is_log ev \<Longrightarrow>
   removals evs = [] \<and> requests evs = [] \<and> filter is_synthesis evs = []"
proof (induction evs)
  case Nil
  show ?case by simp
next
  case (Cons ev evs)
  then show ?case by (cases ev) simp_all
qed

lemma extract_pages_logs:
  "extract_pages filePath i pages = (content, evs) \<Longrightarrow> \<forall>ev\<in>set evs. is_log ev"
proof (induction pages arbitrary: i content evs)
  case Nil
  then show ?case by simp
next
  case (Cons page pages)
  obtain rest revs where r: "extract_pages filePath (Suc i) pages = (rest, revs)"
    by (cases "extract_pages filePath (Suc i) pages")
  from Cons.IH [OF r] have "\<forall>ev\<in>set revs. is_log ev" .
  with Cons.prems r show ?case by (cases page) auto
qed

lemma ExtractText_events:
  assumes "ExtractTextFromPDFFilePath w filePath = (r, evs)"
  shows "\<exists>logs. evs = EvPdfOpen filePath # logs \<and> (\<forall>ev\<in>set logs. is_log ev)"
proof (cases "pdf_Open w filePath")
  case (Inl err)
  with assms show ?thesis by (auto simp: ExtractTextFromPDFFilePath_def)
next
  case (Inr pages)
  obtain content pevs where p: "extract_pages filePath 1 pages = (content, pevs)"
    by (cases "extract_pages filePath 1 pages")
  from extract_pages_logs [OF p] have "\<forall>ev\<in>set pevs. is_log ev" .
  with assms Inr p show ?thesis
    by (cases "pages = []") (auto simp: ExtractTextFromPDFFilePath_def)
qed

lemma Download_success:
  assumes "DownloadFileToTemp w bucketName objectName = (Inr (tempName, cleanup), evs)"
  shows "cleanup = cleanupFunc w tempName \<and> removals evs = [] \<and> requests evs = []
         \<and> filter is_synthesis evs = []"
proof (cases "NewReader w bucketName objectName")
  case (Inl err)
  with assms show ?thesis by (simp add: DownloadFileToTemp_def)
next
  case rc: (Inr rc)
  show ?thesis
  proof (cases "CreateTemp w (Base objectName @ ''_*.tmp'')")
    case (Inl err)
    with assms rc show ?thesis by (simp add: DownloadFileToTemp_def)
  next
    case (Inr t)
    with assms rc show ?thesis
      by (cases "io_Copy w t rc") (auto simp: DownloadFileToTemp_def)
  qed
qed

lemma cleanupFunc_events:
  "removals (cleanupFunc w tempName) = [tempName] \<and> requests (cleanupFunc w tempName) = []
   \<and> filter is_synthesis (cleanupFunc w tempName) = []"
proof (cases "os_Remove w tempName")
  case None
  then show ?thesis by (simp add: cleanupFunc_def)
next
  case (Some err)
  then show ?thesis by (cases "IsNotExist w err") (simp_all add: cleanupFunc_def)
qed

lemma SynthesizeLongAudio_events:
  assumes "SynthesizeLongAudio w txt projectNumber location uri voice = Some (result, tr)"
  shows "removals tr = [] \<and> requests tr = [request txt projectNumber location uri voice]"
proof (cases "Submit w (request txt projectNumber location uri voice)")
  case (Inl err)
  with assms show ?thesis by (auto simp: SynthesizeLongAudio_def Let_def)
next
  case (Inr opName)
  with assms have p: "poll w opName 0
      (submitted (request txt projectNumber location uri voice) opName) = Some (result, tr)"
    by (simp add: SynthesizeLongAudio_def Let_def submitted_def)
  from poll_events [OF p] obtain evs where
    t: "tr = submitted (request txt projectNumber location uri voice) opName @ evs"
    and q: "\<forall>ev\<in>set evs. is_polling ev" by auto
  from polling_quiet [OF q] t show ?thesis by (simp add: submitted_def)
qed

lemma process_downloaded_events:
  assumes "process_downloaded w e tempPDFPath projectNumber location uri voice = Some (result, body)"
  shows "removals body = [] \<and>
         (\<forall>req\<in>set (requests body). OutputGcsUri req = uri \<and> VoiceName req = voice)"
proof -
  obtain r xevs where x: "ExtractTextFromPDFFilePath w tempPDFPath = (r, xevs)"
    by (cases "ExtractTextFromPDFFilePath w tempPDFPath")
  from ExtractText_events [OF x] obtain logs where
    xe: "xevs = EvPdfOpen tempPDFPath # logs" and l: "\<forall>ev\<in>set logs. is_log ev" by blast
  from log_quiet [OF l] xe have q: "removals xevs = []" "requests xevs = []" by simp_all
  show ?thesis
  proof (cases r)
    case (Inl err)
    with assms x q show ?thesis by (auto simp: process_downloaded_def)
  next
    case (Inr extractedText)
    show ?thesis
    proof (cases "TrimSpace extractedText = []")
      case True
      with assms x Inr q show ?thesis by (auto simp: process_downloaded_def)
    next
      case False
      show ?thesis
      proof (cases "SynthesizeLongAudio w extractedText projectNumber location uri voice")
        case None
        with assms x Inr False show ?thesis by (simp add: process_downloaded_def)
      next
        case (Some y)
        obtain res called where y: "y = (res, called)" by (cases y)
        from SynthesizeLongAudio_events [OF Some [unfolded y]]
        have c: "removals called = []"
          "requests called = [request extractedText projectNumber location uri voice]"
          by simp_all
        from assms x Inr False Some y c q show ?thesis
          by (cases res) (auto simp: process_downloaded_def request_def)
      qed
    qed
  qed
qed

lemma decide_uri:
  assumes "decide e = Proceed key uri"
  shows "uri = ''gs://'' @ Bucket e @ ''/'' @ key"
  using assms by (auto simp: decide_def Let_def split: if_splits)

lemma handler_proceeds:
  assumes "decide e = Proceed key uri"
    and "Getenv (environ w) ''PROJECT_NUMBER'' \<noteq> []"
    and "Getenv (environ w) ''GCP_LOCATION'' \<noteq> []"
  shows "processPDFToSpeechHandler w e =
     (case DownloadFileToTemp w (Bucket e) (Name e) of
        (Inl err, evs) \<Rightarrow>
          Some (Some (Errorf ''failed to download PDF %s: %w'' [ArgS (Name e), ArgE err]),
                started w e uri @ evs)
      | (Inr (tempPDFPath, cleanupTempFile), evs) \<Rightarrow>
          (case process_downloaded w e tempPDFPath (Getenv (environ w) ''PROJECT_NUMBER'')
                  (Getenv (environ w) ''GCP_LOCATION'') uri (voice_of w) of
             None \<Rightarrow> None
           | Some (result, body) \<Rightarrow>
               Some (result, started w e uri @ evs @ body @ cleanupTempFile)))"
proof (cases "Getenv (environ w) ''TTS_VOICE_NAME'' = []")
  case True
  with assms show ?thesis
    by (simp add: processPDFToSpeechHandler_def Let_def started_def voice_of_def received_def
        cong: prod.case_cong sum.case_cong option.case_cong)
next
  case False
  with assms show ?thesis
    by (simp add: processPDFToSpeechHandler_def Let_def started_def voice_of_def received_def
        cong: prod.case_cong sum.case_cong option.case_cong)
qed

subsection \<open>Worlds that agree\<close>

text \<open>
  A stage reads only its own oracles: two worlds that agree on them give the same
  outcome. The lines the handler logs before the download are lines of the log, and
  the error of a missing configuration is none of the errors of the later stages.
\<close>

lemma SynthesizeLongAudio_world:
  assumes "GetOperation w' = GetOperation w" and "UnmarshalTo w' = UnmarshalTo w"
    and "Submit w' (request txt projectNumber location uri voice) =
         Submit w (request txt projectNumber location uri voice)"
  shows "SynthesizeLongAudio w' txt projectNumber location uri voice =
         SynthesizeLongAudio w txt projectNumber location uri voice"
proof (cases "Submit w (request txt projectNumber location uri voice)")
  case (Inl err)
  with assms(3) show ?thesis by (simp add: SynthesizeLongAudio_def Let_def)
next
  case (Inr opName)
  with assms(3) poll_world [OF assms(1,2)] show ?thesis
    by (simp add: SynthesizeLongAudio_def Let_def)
qed

lemma process_downloaded_world:
  assumes "pdf_Open w' = pdf_Open w"
    and "GetOperation w' = GetOperation w" and "UnmarshalTo w' = UnmarshalTo w"
    and "\<And>extractedText. Submit w' (request extractedText projectNumber location uri voice) =
         Submit w (request extractedText projectNumber location uri voice)"
  shows "process_downloaded w' e tempPDFPath projectNumber location uri voice =
         process_downloaded w e tempPDFPath projectNumber location uri voice"
proof -
  have x: "ExtractTextFromPDFFilePath w' tempPDFPath = ExtractTextFromPDFFilePath w tempPDFPath"
    using assms(1) by (simp add: ExtractTextFromPDFFilePath_def)
  have s: "\<And>extractedText.
      SynthesizeLongAudio w' extractedText projectNumber location uri voice =
      SynthesizeLongAudio w extractedText projectNumber location uri voice"
    by (rule SynthesizeLongAudio_world [OF assms(2,3,4)])
  show ?thesis unfolding process_downloaded_def x s ..
qed

lemma DownloadFileToTemp_world:
  assumes "NewReader w' = NewReader w" and "CreateTemp w' = CreateTemp w"
    and "io_Copy w' = io_Copy w" and "os_Remove w' = os_Remove w"
    and "IsNotExist w' = IsNotExist w"
  shows "DownloadFileToTemp w' bucketName objectName = DownloadFileToTemp w bucketName objectName"
proof -
  have c: "\<And>tempName. cleanupFunc w' tempName = cleanupFunc w tempName"
    unfolding cleanupFunc_def assms(4,5) ..
  show ?thesis unfolding DownloadFileToTemp_def c assms(1,2,3) ..
qed

lemma started_logs: "filter (\<lambda>ev. \<not> is_log ev) (started w e uri) = []"
  by (simp add: started_def received_def)

lemma process_downloaded_result:
  assumes "process_downloaded w e tempPDFPath projectNumber location uri voice = Some (result, body)"
  shows "result \<noteq> Some configuration_error"
proof -
  obtain r xevs where x: "ExtractTextFromPDFFilePath w tempPDFPath = (r, xevs)"
    by (cases "ExtractTextFromPDFFilePath w tempPDFPath")
  show ?thesis
  proof (cases r)
    case (Inl err)
    with assms x show ?thesis by (auto simp: process_downloaded_def configuration_error_def)
  next
    case (Inr extractedText)
    show ?thesis
    proof (cases "TrimSpace extractedText = []")
      case True
      with assms x Inr show ?thesis by (auto simp: process_downloaded_def)
    next
      case False
      show ?thesis
      proof (cases "SynthesizeLongAudio w extractedText projectNumber location uri voice")
        case None
        with assms x Inr False show ?thesis by (simp add: process_downloaded_def)
      next
        case (Some y)
        obtain res called where y: "y = (res, called)" by (cases y)
        from assms x Inr False Some y show ?thesis
          by (cases res) (auto simp: process_downloaded_def configuration_error_def)
      qed
    qed
  qed
qed

lemma handler_requests:
  assumes "decide e = Proceed key uri"
    and "processPDFToSpeechHandler w e = Some (result, tr)"
    and "req \<in> set (requests tr)"
  shows "OutputGcsUri req = uri \<and> VoiceName req = voice_of w"
proof (cases "Getenv (environ w) ''PROJECT_NUMBER'' = [] \<or> Getenv (environ w) ''GCP_LOCATION'' = []")
  case True
  with assms show ?thesis
    by (auto simp: processPDFToSpeechHandler_def Let_def)
next
  case False
  then have pn: "Getenv (environ w) ''PROJECT_NUMBER'' \<noteq> []"
    and loc: "Getenv (environ w) ''GCP_LOCATION'' \<noteq> []" by simp_all
  note h = handler_proceeds [OF assms(1) pn loc]
  obtain r evs where dl: "DownloadFileToTemp w (Bucket e) (Name e) = (r, evs)"
    by (cases "DownloadFileToTemp w (Bucket e) (Name e)")
  have s: "requests (started w e uri) = []"
    by (simp add: started_def received_def)
  show ?thesis
  proof (cases r)
    case (Inl err)
    with assms(2,3) dl s show ?thesis unfolding h
      by (auto simp: DownloadFileToTemp_def split: sum.splits option.splits)
  next
    case (Inr pc)
    obtain tempPDFPath cleanupTempFile where pc: "pc = (tempPDFPath, cleanupTempFile)"
      by (cases pc)
    from Download_success [OF dl [unfolded Inr pc]] have
      c: "cleanupTempFile = cleanupFunc w tempPDFPath" and d: "requests evs = []"
      by simp_all
    from cleanupFunc_events [of w tempPDFPath] c
    have cl: "requests cleanupTempFile = []" by simp
    from assms(2) [unfolded h] dl Inr pc obtain body where
      b: "process_downloaded w e tempPDFPath (Getenv (environ w) ''PROJECT_NUMBER'')
            (Getenv (environ w) ''GCP_LOCATION'') uri (voice_of w) = Some (result, body)"
      and t: "tr = started w e uri @ evs @ body @ cleanupTempFile"
      by (auto split: option.splits)
    from assms(3) t s d cl have "req \<in> set (requests body)" by simp
    with process_downloaded_events [OF b] show ?thesis by blast
  qed
qed

lemma handler_Submit_guard:
  assumes "decide e = Proceed key uri"
    and "\<And>extractedText.
           guard (request extractedText (Getenv (environ w) ''PROJECT_NUMBER'')
                    (Getenv (environ w) ''GCP_LOCATION'') uri (voice_of w))"
  shows "processPDFToSpeechHandler
           (w\<lparr>Submit := \<lambda>req. if guard req then Submit w req
                                 else Inl (LibraryError refusal)\<rparr>) e
         = processPDFToSpeechHandler w e"
proof (cases "Getenv (environ w) ''PROJECT_NUMBER'' = [] \<or> Getenv (environ w) ''GCP_LOCATION'' = []")
  case True
  with assms(1) show ?thesis
    by (auto simp: processPDFToSpeechHandler_def Let_def)
next
  case False
  let ?w' = "w\<lparr>Submit := \<lambda>req. if guard req then Submit w req
                                 else Inl (LibraryError refusal)\<rparr>"
  let ?pn = "Getenv (environ w) ''PROJECT_NUMBER''" and ?loc = "Getenv (environ w) ''GCP_LOCATION''"
  from False have pn: "?pn \<noteq> []" and loc: "?loc \<noteq> []" by simp_all
  have e': "environ ?w' = environ w" by simp
  have v': "voice_of ?w' = voice_of w" by (simp add: voice_of_def)
  have s': "started ?w' e uri = started w e uri" by (simp add: started_def voice_of_def)
  have d: "DownloadFileToTemp ?w' (Bucket e) (Name e) = DownloadFileToTemp w (Bucket e) (Name e)"
    by (rule DownloadFileToTemp_world) simp_all
  have p: "\<And>tempPDFPath. process_downloaded ?w' e tempPDFPath ?pn ?loc uri (voice_of w) =
      process_downloaded w e tempPDFPath ?pn ?loc uri (voice_of w)"
    by (rule process_downloaded_world) (simp_all add: assms(2))
  show ?thesis
    unfolding handler_proceeds [OF assms(1) pn loc]
      handler_proceeds [of e key uri ?w', OF assms(1), unfolded e' v' s' d p, OF pn loc] ..
qed

subsection \<open>Runs of the test doubles\<close>

text \<open>
  What the stages return in the worlds of the test doubles, for the event of
  \<^verbatim>\<open>pdf-input/report.pdf\<close>: the decision, the download, the extraction, the status
  fetches, and the run of the handler against the backend that fails at the third
  fetch.
\<close>

lemma report_decision:
  "decide report = Proceed ''mp3-output/report.mp3'' ''gs://bkt/mp3-output/report.mp3''"
  by (simp add: report_def decide_def HasSuffix_def HasPrefix_def ToLower_def lower_byte_def
      Base_def Ext_def TrimSuffix_def Let_def)

lemma stub_configured:
  "Getenv (environ (stub configured pages answers)) ''PROJECT_NUMBER'' = ''42''"
  "Getenv (environ (stub configured pages answers)) ''GCP_LOCATION'' = ''us-central1''"
  "environ (stub configured pages answers) ''TTS_VOICE_NAME'' = None"
  by (simp_all add: stub_def configured_def Getenv_def)

lemma stub_download:
  "DownloadFileToTemp (stub env pages answers) (Bucket report) (Name report) =
     (Inr (''/tmp/report.pdf_*.tmp'',
           cleanupFunc (stub env pages answers) ''/tmp/report.pdf_*.tmp''),
      [EvNewReader ''bkt'' ''pdf-input/report.pdf'',
       EvCreateTemp ''report.pdf_*.tmp'',
       EvCopy ''/tmp/report.pdf_*.tmp'',
       EvPrintf ''Downloaded gs://%s/%s to temp file: %s''
         [ArgS ''bkt'', ArgS ''pdf-input/report.pdf'', ArgS ''/tmp/report.pdf_*.tmp'']])"
  by (simp add: DownloadFileToTemp_def stub_def report_def Base_def)

lemma stub_extract_hello:
  "ExtractTextFromPDFFilePath (stub env [Inr ''hello''] answers) filePath =
     (Inr ''hello'', [EvPdfOpen filePath])"
  by (simp add: ExtractTextFromPDFFilePath_def stub_def)

lemma hello_not_blank: "TrimSpace ''hello'' \<noteq> []"
  by (simp add: TrimSpace_def leading_def space_encodings_def)

lemma stub_fails_third:
  "Submit (stub env pages fails_third) req = Inr ''op-1''"
  "\<forall>i<2. \<exists>latestOp. GetOperation (stub env pages fails_third) ''op-1'' i = Inr latestOp
                      \<and> \<not> Done latestOp"
  "GetOperation (stub env pages fails_third) ''op-1'' 2 =
     Inr \<lparr>Done = True, OpError = Some ''quota exceeded'', Metadata = None\<rparr>"
  by (simp_all add: stub_def fails_third_def)

lemma stub_fails_first:
  "GetOperation (stub env pages fails_third) ''op-1'' 0 =
     Inr \<lparr>Done = False, OpError = None, Metadata = None\<rparr>"
  "GetOperation (stub env pages fails_third) ''op-1'' 1 =
     Inr \<lparr>Done = False, OpError = None, Metadata = None\<rparr>"
  by (simp_all add: stub_def fails_third_def)

lemma stub_completes_first:
  "GetOperation (stub env pages completes_second) ''op-1'' 0 =
     Inr \<lparr>Done = False, OpError = None, Metadata = None\<rparr>"
  by (simp add: stub_def completes_second_def)


lemma quota_synthesis:
  "SynthesizeLongAudio (stub env pages fails_third) txt projectNumber location uri voice =
     Some (Some (Errorf ''long audio synthesis operation failed for %s: %v''
                   [ArgS ''op-1'', ArgS ''quota exceeded'']),
           submitted (request txt projectNumber location uri voice) ''op-1''
           @ cycle ''op-1'' @ cycle ''op-1'' @ [EvGetOperation ''op-1''])"
proof -
  have "SynthesizeLongAudio (stub env pages fails_third) txt projectNumber location uri voice =
        poll (stub env pages fails_third) ''op-1'' 2
          (submitted (request txt projectNumber location uri voice) ''op-1''
           @ concat (replicate 2 (cycle ''op-1'')))"
    by (rule SynthesizeLongAudio_polls [OF stub_fails_third(1,2)])
  also have "\<dots> = Some (Some (Errorf ''long audio synthesis operation failed for %s: %v''
                   [ArgS ''op-1'', ArgS ''quota exceeded'']),
           (submitted (request txt projectNumber location uri voice) ''op-1''
            @ concat (replicate 2 (cycle ''op-1''))) @ [EvGetOperation ''op-1''])"
    by (subst poll.simps) (simp add: stub_fails_third(3))
  finally show ?thesis by (simp add: numeral_2_eq_2)
qed

lemma quota_run:
  "processPDFToSpeechHandler (stub configured [Inr ''hello''] fails_third) report =
     Some (Some (Errorf ''failed to synthesize speech for %s: %w''
                   [ArgS ''pdf-input/report.pdf'',
                    ArgE (Errorf ''long audio synthesis operation failed for %s: %v''
                            [ArgS ''op-1'', ArgS ''quota exceeded''])]),
           started (stub configured [Inr ''hello''] fails_third) report
             ''gs://bkt/mp3-output/report.mp3''
           @ [EvNewReader ''bkt'' ''pdf-input/report.pdf'',
              EvCreateTemp ''report.pdf_*.tmp'',
              EvCopy ''/tmp/report.pdf_*.tmp'',
              EvPrintf ''Downloaded gs://%s/%s to temp file: %s''
                [ArgS ''bkt'', ArgS ''pdf-input/report.pdf'', ArgS ''/tmp/report.pdf_*.tmp''],
              EvPdfOpen ''/tmp/report.pdf_*.tmp'',
              EvPrintf ''Text extracted from PDF. Length: %d characters.'' [ArgN 5]]
           @ submitted (request ''hello'' ''42'' ''us-central1''
                          ''gs://bkt/mp3-output/report.mp3'' ''en-US-Wavenet-D'') ''op-1''
           @ cycle ''op-1'' @ cycle ''op-1''
           @ [EvGetOperation ''op-1'']
           @ cleanupFunc (stub configured [Inr ''hello''] fails_third) ''/tmp/report.pdf_*.tmp'')"
proof -
  let ?w = "stub configured [Inr ''hello''] fails_third"
  have v: "voice_of ?w = ''en-US-Wavenet-D''"
    by (simp add: voice_of_def stub_def configured_def Getenv_def)
  have p: "process_downloaded ?w report ''/tmp/report.pdf_*.tmp'' ''42'' ''us-central1''
             ''gs://bkt/mp3-output/report.mp3'' ''en-US-Wavenet-D'' =
           Some (Some (Errorf ''failed to synthesize speech for %s: %w''
                   [ArgS ''pdf-input/report.pdf'',
                    ArgE (Errorf ''long audio synthesis operation failed for %s: %v''
                            [ArgS ''op-1'', ArgS ''quota exceeded''])]),
                 [EvPdfOpen ''/tmp/report.pdf_*.tmp'',
                  EvPrintf ''Text extracted from PDF. Length: %d characters.'' [ArgN 5]]
                 @ submitted (request ''hello'' ''42'' ''us-central1''
                          ''gs://bkt/mp3-output/report.mp3'' ''en-US-Wavenet-D'') ''op-1''
                 @ cycle ''op-1'' @ cycle ''op-1'' @ [EvGetOperation ''op-1''])"
    by (simp add: process_downloaded_def stub_extract_hello hello_not_blank quota_synthesis
        report_def)
  have "Getenv (environ ?w) ''PROJECT_NUMBER'' \<noteq> []" "Getenv (environ ?w) ''GCP_LOCATION'' \<noteq> []"
    by (simp_all add: stub_configured)
  from handler_proceeds [OF report_decision this]
  show ?thesis by (simp add: stub_configured(1,2) v stub_download p)
qed

lemma stub_completes_second:
  "Submit (stub env pages completes_second) req = Inr ''op-1''"
  "\<forall>i<1. \<exists>pendingOp. GetOperation (stub env pages completes_second) ''op-1'' i = Inr pendingOp
                      \<and> \<not> Done pendingOp"
  "GetOperation (stub env pages completes_second) ''op-1'' 1 =
     Inr \<lparr>Done = True, OpError = None, Metadata = Some ''garbled''\<rparr>"
  "UnmarshalTo (stub env pages completes_second) packed =
     Inl (LibraryError ''cannot parse invalid wire-format data'')"
  by (simp_all add: stub_def completes_second_def)

lemma stub_extract_blank:
  "ExtractTextFromPDFFilePath
     (stub env [Inr ''  '', Inl (LibraryError ''no text layer''), Inr [CHR 0xC2, CHR 0xA0]] answers)
     filePath =
   (Inr [CHR 0x20, CHR 0x20, CHR 0xC2, CHR 0xA0],
    [EvPdfOpen filePath,
     EvPrintf ''Warning: Failed to extract text from page %d of %s: %v''
       [ArgN 2, ArgS filePath, ArgE (LibraryError ''no text layer'')]])"
  by (simp add: ExtractTextFromPDFFilePath_def stub_def)

section \<open>The claims\<close>

subsection \<open>The decision on the event\<close>

text \<open>
  Claim C1. An event whose key does not end in \<^verbatim>\<open>.pdf\<close> (compared in lower case) or
  does not begin with \<^verbatim>\<open>pdf-input/\<close> is skipped: the handler returns nil, and all it
  has done is to log two lines, the event received and the reason of the skip. There is
  no download, no extraction and no synthesis.
\<close>

theorem skip_is_noop_success:
  assumes "\<not> HasSuffix (ToLower (Name e)) ''.pdf'' \<or> \<not> HasPrefix (Name e) ''pdf-input/''"
  shows "\<exists>fmt args. decide e = Skip (EvPrintf fmt args) \<and>
           processPDFToSpeechHandler w e = Some (None, [received e, EvPrintf fmt args])"
proof -
  have "\<exists>fmt args. decide e = Skip (EvPrintf fmt args)"
  proof (cases "HasSuffix (ToLower (Name e)) ''.pdf''")
    case True
    with assms show ?thesis by (simp add: decide_def)
  next
    case False
    then show ?thesis by (simp add: decide_def)
  qed
  then obtain fmt args where "decide e = Skip (EvPrintf fmt args)" by blast
  then show ?thesis
    by (simp add: processPDFToSpeechHandler_def received_def)
qed

theorem skip_is_noop_success_witness:
  "\<not> HasSuffix (ToLower (Name \<lparr>Bucket = ''bkt'', Name = ''pdf-input/notes.txt'', ContentType = ''text/plain''\<rparr>)) ''.pdf''
   \<and> processPDFToSpeechHandler (stub configured [Inr ''hello''] fails_third)
         \<lparr>Bucket = ''bkt'', Name = ''pdf-input/notes.txt'', ContentType = ''text/plain''\<rparr>
       = Some (None,
           [EvPrintf ''Received event for file: %s in bucket: %s with content type: %s''
              [ArgS ''pdf-input/notes.txt'', ArgS ''bkt'', ArgS ''text/plain''],
            EvPrintf ''Skipping non-PDF file: %s. Content type: %s''
              [ArgS ''pdf-input/notes.txt'', ArgS ''text/plain'']])"
proof -
  let ?e = "\<lparr>Bucket = ''bkt'', Name = ''pdf-input/notes.txt'', ContentType = ''text/plain''\<rparr>"
  have h0: "\<not> HasSuffix (ToLower (Name ?e)) ''.pdf''"
    by (simp add: HasSuffix_def ToLower_def lower_byte_def)
  then have h: "\<not> HasSuffix (ToLower (Name ?e)) ''.pdf'' \<or> \<not> HasPrefix (Name ?e) ''pdf-input/''"
    by simp
  have d: "decide ?e = Skip (EvPrintf ''Skipping non-PDF file: %s. Content type: %s''
              [ArgS ''pdf-input/notes.txt'', ArgS ''text/plain''])"
    by (simp add: decide_def HasSuffix_def ToLower_def lower_byte_def)
  from skip_is_noop_success [OF h, of "stub configured [Inr ''hello''] fails_third"] d h0
  show ?thesis by (simp add: received_def)
qed

text \<open>
  Claim C2. The key of an accepted event is a directory, a separator, a stem without
  separator and an extension that is \<^verbatim>\<open>.pdf\<close> in lower case; the stem is the base
  file name without its extension. The name of the output object is \<^verbatim>\<open>mp3-output/\<close>,
  the stem and \<^verbatim>\<open>.mp3\<close>: for \<^verbatim>\<open>pdf-input/report.pdf\<close> it is \<^verbatim>\<open>mp3-output/report.mp3\<close>.
\<close>

theorem output_key_of_accepted:
  assumes "HasSuffix (ToLower (Name e)) ''.pdf''" and "HasPrefix (Name e) ''pdf-input/''"
  shows "\<exists>d stem x. Name e = d @ ''/'' @ stem @ x \<and> CHR ''/'' \<notin> set stem \<and>
           ToLower x = ''.pdf'' \<and>
           decide e = Proceed (''mp3-output/'' @ stem @ ''.mp3'')
                        (''gs://'' @ Bucket e @ ''/'' @ ''mp3-output/'' @ stem @ ''.mp3'')"
proof -
  from accepted_key_shape [OF assms] obtain d stem x where
    k: "Name e = d @ ''/'' @ stem @ x" and s: "CHR ''/'' \<notin> set stem" and x: "ToLower x = ''.pdf''"
    by blast
  have "TrimSuffix (Base (Name e)) (Ext (Base (Name e))) = stem"
    unfolding k by (rule stem_of_key [OF s x])
  with assms have "decide e = Proceed (''mp3-output/'' @ stem @ ''.mp3'')
                        (''gs://'' @ Bucket e @ ''/'' @ ''mp3-output/'' @ stem @ ''.mp3'')"
    by (simp add: decide_def Let_def)
  with k s x show ?thesis by blast
qed

theorem output_key_of_accepted_witness:
  "HasSuffix (ToLower (Name \<lparr>Bucket = ''bkt'', Name = ''pdf-input/report.pdf'', ContentType = ''application/pdf''\<rparr>)) ''.pdf''
   \<and> HasPrefix (Name \<lparr>Bucket = ''bkt'', Name = ''pdf-input/report.pdf'', ContentType = ''application/pdf''\<rparr>) ''pdf-input/''
   \<and> decide \<lparr>Bucket = ''bkt'', Name = ''pdf-input/report.pdf'', ContentType = ''application/pdf''\<rparr>
       = Proceed ''mp3-output/report.mp3'' ''gs://bkt/mp3-output/report.mp3''"
proof -
  let ?e = "\<lparr>Bucket = ''bkt'', Name = ''pdf-input/report.pdf'', ContentType = ''application/pdf''\<rparr>"
  have h1: "HasSuffix (ToLower (Name ?e)) ''.pdf''"
    by (simp add: HasSuffix_def ToLower_def lower_byte_def)
  have h2: "HasPrefix (Name ?e) ''pdf-input/''"
    by (simp add: HasPrefix_def)
  from output_key_of_accepted [OF h1 h2] obtain d stem x where
    k: "''pdf-input/report.pdf'' = d @ ''/'' @ stem @ x" and s: "CHR ''/'' \<notin> set stem"
    and x: "ToLower x = ''.pdf''"
    and p: "decide ?e = Proceed (''mp3-output/'' @ stem @ ''.mp3'')
                        (''gs://'' @ Bucket ?e @ ''/'' @ ''mp3-output/'' @ stem @ ''.mp3'')"
    by auto
  have "stem = TrimSuffix (Base (d @ ''/'' @ stem @ x)) (Ext (Base (d @ ''/'' @ stem @ x)))"
    by (rule stem_of_key [OF s x, symmetric])
  also have "\<dots> = ''report''"
    unfolding k [symmetric] by (simp add: Base_def Ext_def TrimSuffix_def HasSuffix_def)
  finally have "stem = ''report''" .
  with p h1 h2 show ?thesis by simp
qed

text \<open>
  Claim C3, as stated, fails: a key that passes both tests and whose base file name is
  nothing but the extension, as \<^verbatim>\<open>pdf-input/.pdf\<close>, is not rejected. The handler has no
  test of the stem: the decision is to proceed, with the output object \<^verbatim>\<open>mp3-output/.mp3\<close>,
  and the handler goes on to ask the backend for \<^verbatim>\<open>gs://bkt/mp3-output/.mp3\<close>.
\<close>

theorem empty_base_name_counterexample:
  "HasSuffix (ToLower ''pdf-input/.pdf'') ''.pdf''
   \<and> HasPrefix ''pdf-input/.pdf'' ''pdf-input/''
   \<and> TrimSuffix (Base ''pdf-input/.pdf'') (Ext (Base ''pdf-input/.pdf'')) = []
   \<and> decide \<lparr>Bucket = ''bkt'', Name = ''pdf-input/.pdf'', ContentType = ''application/pdf''\<rparr>
       = Proceed ''mp3-output/.mp3'' ''gs://bkt/mp3-output/.mp3''
   \<and> requests (snd (the (processPDFToSpeechHandler
                           (stub configured [Inr ''hello''] fails_third)
                           \<lparr>Bucket = ''bkt'', Name = ''pdf-input/.pdf'',
                            ContentType = ''application/pdf''\<rparr>))) =
       [request ''hello'' ''42'' ''us-central1'' ''gs://bkt/mp3-output/.mp3''
          ''en-US-Wavenet-D'']"
proof -
  have "HasSuffix (ToLower ''pdf-input/.pdf'') ''.pdf''"
    by (simp add: HasSuffix_def ToLower_def lower_byte_def)
  moreover have "HasPrefix ''pdf-input/.pdf'' ''pdf-input/''"
    by (simp add: HasPrefix_def)
  moreover have "TrimSuffix (Base ''pdf-input/.pdf'') (Ext (Base ''pdf-input/.pdf'')) = []"
    by (simp add: Base_def Ext_def TrimSuffix_def HasSuffix_def)
  moreover have
    "decide \<lparr>Bucket = ''bkt'', Name = ''pdf-input/.pdf'', ContentType = ''application/pdf''\<rparr>
       = Proceed ''mp3-output/.mp3'' ''gs://bkt/mp3-output/.mp3''"
    by (simp add: decide_def HasSuffix_def HasPrefix_def ToLower_def lower_byte_def
        Base_def Ext_def TrimSuffix_def Let_def)
  moreover have
    "requests (snd (the (processPDFToSpeechHandler
                           (stub configured [Inr ''hello''] fails_third)
                           \<lparr>Bucket = ''bkt'', Name = ''pdf-input/.pdf'',
                            ContentType = ''application/pdf''\<rparr>))) =
       [request ''hello'' ''42'' ''us-central1'' ''gs://bkt/mp3-output/.mp3''
          ''en-US-Wavenet-D'']"
    by (simp add: processPDFToSpeechHandler_def decide_def process_downloaded_def
        SynthesizeLongAudio_def request_def DownloadFileToTemp_def cleanupFunc_def
        ExtractTextFromPDFFilePath_def completion_log_def
        HasSuffix_def HasPrefix_def TrimSuffix_def ToLower_def lower_byte_def Base_def Ext_def
        TrimSpace_def leading_def space_encodings_def Getenv_def
        stub_def configured_def fails_third_def Let_def poll.simps)
  ultimately show ?thesis by blast
qed

text \<open>
  Claim C3, amended. A key that begins with \<^verbatim>\<open>pdf-input/\<close> and whose last element is
  only an extension \<^verbatim>\<open>.pdf\<close>, in any case, is accepted: nothing is thrown, and the
  output object is \<^verbatim>\<open>mp3-output/.mp3\<close> in the bucket of the event.
\<close>

theorem empty_base_name_is_accepted:
  assumes "HasPrefix (Name e) ''pdf-input/''" and "Name e = d @ ''/'' @ x"
    and "ToLower x = ''.pdf''"
  shows "decide e = Proceed ''mp3-output/.mp3'' (''gs://'' @ Bucket e @ ''/mp3-output/.mp3'')"
proof -
  from assms(3) have "length (ToLower x) = length ''.pdf''" by simp
  then have lx: "length x = 4" by (simp add: ToLower_def)
  have "ToLower (Name e) = ToLower (d @ ''/'') @ ''.pdf''"
    using assms(2,3) by (simp add: ToLower_def)
  then have suf: "HasSuffix (ToLower (Name e)) ''.pdf''"
    by (simp add: HasSuffix_def)
  have "TrimSuffix (Base (d @ ''/'' @ [] @ x)) (Ext (Base (d @ ''/'' @ [] @ x))) = []"
    by (rule stem_of_key [OF _ assms(3)]) simp
  then have "TrimSuffix (Base (Name e)) (Ext (Base (Name e))) = []"
    using assms(2) by simp
  with suf assms(1) show ?thesis by (simp add: decide_def Let_def)
qed

theorem empty_base_name_is_accepted_witness:
  "HasPrefix (Name \<lparr>Bucket = ''bkt'', Name = ''pdf-input/.pdf'', ContentType = ''application/pdf''\<rparr>) ''pdf-input/''
   \<and> Name \<lparr>Bucket = ''bkt'', Name = ''pdf-input/.pdf'', ContentType = ''application/pdf''\<rparr>
       = ''pdf-input'' @ ''/'' @ ''.pdf''
   \<and> ToLower ''.pdf'' = ''.pdf''
   \<and> decide \<lparr>Bucket = ''bkt'', Name = ''pdf-input/.pdf'', ContentType = ''application/pdf''\<rparr>
       = Proceed ''mp3-output/.mp3'' ''gs://bkt/mp3-output/.mp3''"
proof -
  let ?e = "\<lparr>Bucket = ''bkt'', Name = ''pdf-input/.pdf'', ContentType = ''application/pdf''\<rparr>"
  have h1: "HasPrefix (Name ?e) ''pdf-input/''" by (simp add: HasPrefix_def)
  have h2: "Name ?e = ''pdf-input'' @ ''/'' @ ''.pdf''" by simp
  have h3: "ToLower ''.pdf'' = ''.pdf''" by (simp add: ToLower_def lower_byte_def)
  from empty_base_name_is_accepted [OF h1 h2 h3] h1 h2 h3 show ?thesis by simp
qed

subsection \<open>The poller\<close>

text \<open>
  Claim C7. When the submission succeeds, the first \<open>k\<close> status fetches report an
  operation that is not done and the next one is terminal, the poller returns, and its
  trace is the submission, \<open>k\<close> turns of fetch, log and sleep, the terminal fetch, and
  then lines of the log only: no status is fetched after the terminal one. When the
  terminal fetch reports \<^verbatim>\<open>Done\<close> with an error, the poller returns an error that
  carries the message of that error. With \<open>k = 2\<close> this is the backend that
  reports not done, not done, then done with an error: two sleeps, three fetches.
\<close>

theorem poller_stops_at_terminal_state:
  assumes "Submit w (request txt projectNumber location uri voice) = Inr opName"
    and "\<forall>i<k. \<exists>latestOp. GetOperation w opName i = Inr latestOp \<and> \<not> Done latestOp"
    and "terminal (GetOperation w opName k)"
  shows "\<exists>result logs.
           SynthesizeLongAudio w txt projectNumber location uri voice =
             Some (result,
                   submitted (request txt projectNumber location uri voice) opName
                   @ concat (replicate k (cycle opName))
                   @ EvGetOperation opName # logs)
           \<and> (\<forall>ev\<in>set logs. is_log ev)
           \<and> (\<forall>latestOp message.
                 GetOperation w opName k = Inr latestOp \<and> OpError latestOp = Some message \<longrightarrow>
                 result = Some (Errorf ''long audio synthesis operation failed for %s: %v''
                                  [ArgS opName, ArgS message])
                 \<and> logs = [])"
proof -
  from poll_terminal [OF assms(3),
      of "submitted (request txt projectNumber location uri voice) opName
          @ concat (replicate k (cycle opName))"]
  obtain result logs where
    p: "poll w opName k
          (submitted (request txt projectNumber location uri voice) opName
           @ concat (replicate k (cycle opName))) =
        Some (result,
              (submitted (request txt projectNumber location uri voice) opName
               @ concat (replicate k (cycle opName)))
              @ EvGetOperation opName # logs)"
    and l: "\<forall>ev\<in>set logs. is_log ev"
    and e: "\<forall>latestOp message.
                 GetOperation w opName k = Inr latestOp \<and> OpError latestOp = Some message \<longrightarrow>
                 result = Some (Errorf ''long audio synthesis operation failed for %s: %v''
                                  [ArgS opName, ArgS message])
                 \<and> logs = []"
    by blast
  from p have "SynthesizeLongAudio w txt projectNumber location uri voice =
             Some (result,
                   submitted (request txt projectNumber location uri voice) opName
                   @ concat (replicate k (cycle opName))
                   @ EvGetOperation opName # logs)"
    by (simp add: SynthesizeLongAudio_polls [OF assms(1,2)])
  with l e show ?thesis by blast
qed

theorem poller_stops_at_terminal_state_witness:
  "Submit (stub configured [] fails_third)
     (request ''hello'' ''42'' ''us-central1'' ''gs://bkt/mp3-output/report.mp3''
        ''en-US-Wavenet-D'') = Inr ''op-1''
   \<and> GetOperation (stub configured [] fails_third) ''op-1'' 0 =
       Inr \<lparr>Done = False, OpError = None, Metadata = None\<rparr>
   \<and> GetOperation (stub configured [] fails_third) ''op-1'' 1 =
       Inr \<lparr>Done = False, OpError = None, Metadata = None\<rparr>
   \<and> GetOperation (stub configured [] fails_third) ''op-1'' 2 =
       Inr \<lparr>Done = True, OpError = Some ''quota exceeded'', Metadata = None\<rparr>
   \<and> terminal (GetOperation (stub configured [] fails_third) ''op-1'' 2)
   \<and> SynthesizeLongAudio (stub configured [] fails_third) ''hello'' ''42'' ''us-central1''
       ''gs://bkt/mp3-output/report.mp3'' ''en-US-Wavenet-D'' =
       Some (Some (Errorf ''long audio synthesis operation failed for %s: %v''
                     [ArgS ''op-1'', ArgS ''quota exceeded'']),
             [EvPrintf ''Initiating Long Audio Synthesis...'' [],
              EvSynthesizeLongAudio
                \<lparr>InputText = ''hello'', Encoding = LINEAR16, SampleRateHertz = 16000,
                 LanguageCode = ''en-US'', SsmlGender = NEUTRAL,
                 VoiceName = ''en-US-Wavenet-D'',
                 OutputGcsUri = ''gs://bkt/mp3-output/report.mp3'',
                 Parent = ''projects/42/locations/us-central1''\<rparr>,
              EvPrintf ''Long Audio Synthesis operation started: %s. Waiting for completion...''
                [ArgS ''op-1''],
              EvGetOperation ''op-1'',
              EvPrintf ''Operation %s not yet complete. Retrying in 10 seconds...''
                [ArgS ''op-1''],
              EvSleep 10,
              EvGetOperation ''op-1'',
              EvPrintf ''Operation %s not yet complete. Retrying in 10 seconds...''
                [ArgS ''op-1''],
              EvSleep 10,
              EvGetOperation ''op-1''])"
proof -
  let ?w = "stub configured [] fails_third"
  have t: "terminal (GetOperation ?w ''op-1'' 2)"
    by (simp add: terminal_def stub_fails_third(3))
  from poller_stops_at_terminal_state
         [OF stub_fails_third(1) stub_fails_third(2) t,
          of "''hello''" "''42''" "''us-central1''" "''gs://bkt/mp3-output/report.mp3''"
             "''en-US-Wavenet-D''"]
  obtain result logs where
    r: "SynthesizeLongAudio ?w ''hello'' ''42'' ''us-central1''
          ''gs://bkt/mp3-output/report.mp3'' ''en-US-Wavenet-D'' =
        Some (result,
              submitted (request ''hello'' ''42'' ''us-central1''
                           ''gs://bkt/mp3-output/report.mp3'' ''en-US-Wavenet-D'') ''op-1''
              @ concat (replicate 2 (cycle ''op-1''))
              @ EvGetOperation ''op-1'' # logs)"
    and e: "\<forall>latestOp message.
              GetOperation ?w ''op-1'' 2 = Inr latestOp \<and> OpError latestOp = Some message \<longrightarrow>
              result = Some (Errorf ''long audio synthesis operation failed for %s: %v''
                               [ArgS ''op-1'', ArgS message])
              \<and> logs = []"
    by blast
  from e stub_fails_third(3) [of configured "[]"]
  have "result = Some (Errorf ''long audio synthesis operation failed for %s: %v''
                         [ArgS ''op-1'', ArgS ''quota exceeded''])"
    and "logs = []"
    by simp_all
  with r stub_fails_third(1,3) t stub_fails_first [of configured "[]"] show ?thesis
    by (simp add: submitted_def cycle_def request_def numeral_2_eq_2)
qed

text \<open>
  Claim C8. When the terminal fetch reports \<^verbatim>\<open>Done\<close> without error, the poller returns
  nil, whatever the metadata; when the metadata does not decode, the failure is a
  warning in the log, followed by the line of the successful completion.
\<close>

theorem decode_failure_is_success:
  assumes "Submit w (request txt projectNumber location uri voice) = Inr opName"
    and "\<forall>i<k. \<exists>pendingOp. GetOperation w opName i = Inr pendingOp \<and> \<not> Done pendingOp"
    and "GetOperation w opName k = Inr latestOp" and "Done latestOp"
    and "OpError latestOp = None"
  shows "SynthesizeLongAudio w txt projectNumber location uri voice =
           Some (None,
                 submitted (request txt projectNumber location uri voice) opName
                 @ concat (replicate k (cycle opName))
                 @ EvGetOperation opName # completion_log w opName latestOp)
         \<and> (\<forall>packed err.
               Metadata latestOp = Some packed \<and> UnmarshalTo w packed = Inl err \<longrightarrow>
               completion_log w opName latestOp =
                 [EvPrintf ''Warning: Could not unmarshal operation metadata for %s: %v''
                    [ArgS opName, ArgE err],
                  EvPrintf ''Long Audio Synthesis operation %s completed successfully.''
                    [ArgS opName]])"
proof -
  have t: "terminal (GetOperation w opName k)" using assms(3,4) by (simp add: terminal_def)
  from poll_terminal [OF t,
      of "submitted (request txt projectNumber location uri voice) opName
          @ concat (replicate k (cycle opName))"] assms(3,5)
  have "poll w opName k
          (submitted (request txt projectNumber location uri voice) opName
           @ concat (replicate k (cycle opName))) =
        Some (None,
              (submitted (request txt projectNumber location uri voice) opName
               @ concat (replicate k (cycle opName)))
              @ EvGetOperation opName # completion_log w opName latestOp)"
    by auto
  then have "SynthesizeLongAudio w txt projectNumber location uri voice =
           Some (None,
                 submitted (request txt projectNumber location uri voice) opName
                 @ concat (replicate k (cycle opName))
                 @ EvGetOperation opName # completion_log w opName latestOp)"
    by (simp add: SynthesizeLongAudio_polls [OF assms(1,2)])
  moreover have "\<forall>packed err.
               Metadata latestOp = Some packed \<and> UnmarshalTo w packed = Inl err \<longrightarrow>
               completion_log w opName latestOp =
                 [EvPrintf ''Warning: Could not unmarshal operation metadata for %s: %v''
                    [ArgS opName, ArgE err],
                  EvPrintf ''Long Audio Synthesis operation %s completed successfully.''
                    [ArgS opName]]"
    by (simp add: completion_log_def)
  ultimately show ?thesis by blast
qed

theorem decode_failure_is_success_witness:
  "Submit (stub configured [] completes_second)
     (request ''hello'' ''42'' ''us-central1'' ''gs://bkt/mp3-output/report.mp3''
        ''en-US-Wavenet-D'') = Inr ''op-1''
   \<and> GetOperation (stub configured [] completes_second) ''op-1'' 0 =
       Inr \<lparr>Done = False, OpError = None, Metadata = None\<rparr>
   \<and> GetOperation (stub configured [] completes_second) ''op-1'' 1 =
       Inr \<lparr>Done = True, OpError = None, Metadata = Some ''garbled''\<rparr>
   \<and> UnmarshalTo (stub configured [] completes_second) ''garbled'' =
       Inl (LibraryError ''cannot parse invalid wire-format data'')
   \<and> SynthesizeLongAudio (stub configured [] completes_second) ''hello'' ''42'' ''us-central1''
       ''gs://bkt/mp3-output/report.mp3'' ''en-US-Wavenet-D'' =
       Some (None,
             [EvPrintf ''Initiating Long Audio Synthesis...'' [],
              EvSynthesizeLongAudio
                \<lparr>InputText = ''hello'', Encoding = LINEAR16, SampleRateHertz = 16000,
                 LanguageCode = ''en-US'', SsmlGender = NEUTRAL,
                 VoiceName = ''en-US-Wavenet-D'',
                 OutputGcsUri = ''gs://bkt/mp3-output/report.mp3'',
                 Parent = ''projects/42/locations/us-central1''\<rparr>,
              EvPrintf ''Long Audio Synthesis operation started: %s. Waiting for completion...''
                [ArgS ''op-1''],
              EvGetOperation ''op-1'',
              EvPrintf ''Operation %s not yet complete. Retrying in 10 seconds...''
                [ArgS ''op-1''],
              EvSleep 10,
              EvGetOperation ''op-1'',
              EvPrintf ''Warning: Could not unmarshal operation metadata for %s: %v''
                [ArgS ''op-1'', ArgE (LibraryError ''cannot parse invalid wire-format data'')],
              EvPrintf ''Long Audio Synthesis operation %s completed successfully.''
                [ArgS ''op-1'']])"
proof -
  let ?w = "stub configured [] completes_second"
  let ?op = "\<lparr>Done = True, OpError = None, Metadata = Some ''garbled''\<rparr>"
  have d: "Done ?op" and n: "OpError ?op = None" by simp_all
  from decode_failure_is_success
         [of ?w "''hello''" "''42''" "''us-central1''" "''gs://bkt/mp3-output/report.mp3''"
             "''en-US-Wavenet-D''",
          OF stub_completes_second(1) stub_completes_second(2) stub_completes_second(3) d n]
  have r: "SynthesizeLongAudio ?w ''hello'' ''42'' ''us-central1''
          ''gs://bkt/mp3-output/report.mp3'' ''en-US-Wavenet-D'' =
        Some (None,
              submitted (request ''hello'' ''42'' ''us-central1''
                           ''gs://bkt/mp3-output/report.mp3'' ''en-US-Wavenet-D'') ''op-1''
              @ concat (replicate 1 (cycle ''op-1''))
              @ EvGetOperation ''op-1'' # completion_log ?w ''op-1'' ?op)"
    and l: "\<forall>packed err.
               Metadata ?op = Some packed \<and> UnmarshalTo ?w packed = Inl err \<longrightarrow>
               completion_log ?w ''op-1'' ?op =
                 [EvPrintf ''Warning: Could not unmarshal operation metadata for %s: %v''
                    [ArgS ''op-1'', ArgE err],
                  EvPrintf ''Long Audio Synthesis operation %s completed successfully.''
                    [ArgS ''op-1'']]"
    by simp_all
  from l stub_completes_second(4) [of configured "[]" "''garbled''"]
  have "completion_log ?w ''op-1'' ?op =
          [EvPrintf ''Warning: Could not unmarshal operation metadata for %s: %v''
             [ArgS ''op-1'', ArgE (LibraryError ''cannot parse invalid wire-format data'')],
           EvPrintf ''Long Audio Synthesis operation %s completed successfully.''
             [ArgS ''op-1'']]"
    by simp
  with r stub_completes_second(1,3,4) stub_completes_first [of configured "[]"] show ?thesis
    by (simp add: submitted_def cycle_def request_def)
qed



subsection \<open>The pipeline\<close>

text \<open>
  Claim C4. For an accepted event, when \<^verbatim>\<open>PROJECT_NUMBER\<close> or \<^verbatim>\<open>GCP_LOCATION\<close> is not
  set, the handler returns the configuration error at once: the trace is the first
  line of the log and nothing else, so nothing is downloaded, extracted or
  synthesized. When both are set and \<^verbatim>\<open>TTS_VOICE_NAME\<close> is not, the handler does not
  return the configuration error: it logs that it uses the default, goes on to the
  download, and runs the later stages with the voice \<^verbatim>\<open>en-US-Wavenet-D\<close>. Every request
  it has handed to the speech backend when it returns names that voice, a backend that
  refuses any other voice makes no difference to it, whether it returns or not, and
  apart from the lines of the log its outcome is the one it has when the variable is
  set to \<^verbatim>\<open>en-US-Wavenet-D\<close>.
\<close>

theorem missing_configuration_fails_first:
  assumes "decide e = Proceed key uri"
  shows "(environ w ''PROJECT_NUMBER'' = None \<or> environ w ''GCP_LOCATION'' = None \<longrightarrow>
            processPDFToSpeechHandler w e = Some (Some configuration_error, [received e]))
         \<and> (Getenv (environ w) ''PROJECT_NUMBER'' \<noteq> [] \<and>
            Getenv (environ w) ''GCP_LOCATION'' \<noteq> [] \<and>
            environ w ''TTS_VOICE_NAME'' = None \<longrightarrow>
              (\<forall>tr. processPDFToSpeechHandler w e \<noteq> Some (Some configuration_error, tr))
              \<and> calls (processPDFToSpeechHandler w e) =
                  calls (processPDFToSpeechHandler
                           (w\<lparr>environ := (environ w)(''TTS_VOICE_NAME'' \<mapsto> ''en-US-Wavenet-D'')\<rparr>) e)
              \<and> started w e uri =
                  [received e,
                   EvPrintf ''TTS_VOICE_NAME environment variable not set. Using default 'en-US-Wavenet-D'.'' [],
                   EvPrintf ''Processing PDF: %s in bucket: %s'' [ArgS (Name e), ArgS (Bucket e)],
                   EvPrintf ''Target output: %s'' [ArgS uri],
                   EvPrintf ''Using Project Number: %s, Location: %s, Voice: %s''
                     [ArgS (Getenv (environ w) ''PROJECT_NUMBER''),
                      ArgS (Getenv (environ w) ''GCP_LOCATION''), ArgS ''en-US-Wavenet-D'']]
              \<and> processPDFToSpeechHandler w e =
                  (case DownloadFileToTemp w (Bucket e) (Name e) of
                     (Inl err, evs) \<Rightarrow>
                       Some (Some (Errorf ''failed to download PDF %s: %w''
                                     [ArgS (Name e), ArgE err]),
                             started w e uri @ evs)
                   | (Inr (tempPDFPath, cleanupTempFile), evs) \<Rightarrow>
                       (case process_downloaded w e tempPDFPath
                               (Getenv (environ w) ''PROJECT_NUMBER'')
                               (Getenv (environ w) ''GCP_LOCATION'') uri ''en-US-Wavenet-D'' of
                          None \<Rightarrow> None
                        | Some (result, body) \<Rightarrow>
                            Some (result, started w e uri @ evs @ body @ cleanupTempFile)))
              \<and> (\<forall>result tr req.
                    processPDFToSpeechHandler w e = Some (result, tr) \<and>
                    req \<in> set (requests tr) \<longrightarrow>
                    VoiceName req = ''en-US-Wavenet-D'')
              \<and> processPDFToSpeechHandler
                    (w\<lparr>Submit := \<lambda>req. if VoiceName req = ''en-US-Wavenet-D''
                                        then Submit w req
                                        else Inl (LibraryError ''another voice'')\<rparr>) e
                  = processPDFToSpeechHandler w e)"
proof (intro conjI impI)
  assume "environ w ''PROJECT_NUMBER'' = None \<or> environ w ''GCP_LOCATION'' = None"
  then have "Getenv (environ w) ''PROJECT_NUMBER'' = [] \<or> Getenv (environ w) ''GCP_LOCATION'' = []"
    by (auto simp: Getenv_def)
  with assms show "processPDFToSpeechHandler w e = Some (Some configuration_error, [received e])"
    by (auto simp: processPDFToSpeechHandler_def Let_def configuration_error_def received_def)
next
  let ?w' = "w\<lparr>environ := (environ w)(''TTS_VOICE_NAME'' \<mapsto> ''en-US-Wavenet-D'')\<rparr>"
  let ?pn = "Getenv (environ w) ''PROJECT_NUMBER''" and ?loc = "Getenv (environ w) ''GCP_LOCATION''"
  assume c: "?pn \<noteq> [] \<and> ?loc \<noteq> [] \<and> environ w ''TTS_VOICE_NAME'' = None"
  then have pn: "?pn \<noteq> []" and loc: "?loc \<noteq> []" and unset: "environ w ''TTS_VOICE_NAME'' = None"
    by simp_all
  have pn': "Getenv (environ ?w') ''PROJECT_NUMBER'' = ?pn"
    and loc': "Getenv (environ ?w') ''GCP_LOCATION'' = ?loc"
    by (simp_all add: Getenv_def)
  have v: "voice_of w = ''en-US-Wavenet-D''" using unset by (simp add: voice_of_def Getenv_def)
  have v': "voice_of ?w' = ''en-US-Wavenet-D''" by (simp add: voice_of_def Getenv_def)
  have d: "DownloadFileToTemp ?w' (Bucket e) (Name e) = DownloadFileToTemp w (Bucket e) (Name e)"
    by (rule DownloadFileToTemp_world) simp_all
  have p: "\<And>tempPDFPath. process_downloaded ?w' e tempPDFPath ?pn ?loc uri ''en-US-Wavenet-D'' =
      process_downloaded w e tempPDFPath ?pn ?loc uri ''en-US-Wavenet-D''"
    by (rule process_downloaded_world) simp_all
  note h = handler_proceeds [OF assms pn loc, unfolded v]
  note h' = handler_proceeds [of e key uri ?w', OF assms, unfolded pn' loc' v' d p, OF pn loc]
  obtain r evs where dl: "DownloadFileToTemp w (Bucket e) (Name e) = (r, evs)"
    by (cases "DownloadFileToTemp w (Bucket e) (Name e)")
  show "\<forall>tr. processPDFToSpeechHandler w e \<noteq> Some (Some configuration_error, tr)"
  proof (cases r)
    case (Inl err)
    with dl show ?thesis unfolding h by (simp add: configuration_error_def)
  next
    case (Inr pc)
    obtain tempPDFPath cleanupTempFile where pc: "pc = (tempPDFPath, cleanupTempFile)"
      by (cases pc)
    show ?thesis
    proof (cases "process_downloaded w e tempPDFPath ?pn ?loc uri ''en-US-Wavenet-D''")
      case None
      with dl Inr pc show ?thesis unfolding h by simp
    next
      case (Some y)
      obtain result body where y: "y = (result, body)" by (cases y)
      from process_downloaded_result [OF Some [unfolded y]] dl Inr pc Some y
      show ?thesis unfolding h by simp
    qed
  qed
  show "calls (processPDFToSpeechHandler w e) = calls (processPDFToSpeechHandler ?w' e)"
  proof (cases r)
    case (Inl err)
    with dl show ?thesis unfolding h h' by (simp add: calls_def started_logs)
  next
    case (Inr pc)
    obtain tempPDFPath cleanupTempFile where pc: "pc = (tempPDFPath, cleanupTempFile)"
      by (cases pc)
    show ?thesis
    proof (cases "process_downloaded w e tempPDFPath ?pn ?loc uri ''en-US-Wavenet-D''")
      case None
      with dl Inr pc show ?thesis unfolding h h' by (simp add: calls_def)
    next
      case (Some y)
      obtain result body where y: "y = (result, body)" by (cases y)
      from dl Inr pc Some y show ?thesis unfolding h h' by (simp add: calls_def started_logs)
    qed
  qed
  show "started w e uri =
          [received e,
           EvPrintf ''TTS_VOICE_NAME environment variable not set. Using default 'en-US-Wavenet-D'.'' [],
           EvPrintf ''Processing PDF: %s in bucket: %s'' [ArgS (Name e), ArgS (Bucket e)],
           EvPrintf ''Target output: %s'' [ArgS uri],
           EvPrintf ''Using Project Number: %s, Location: %s, Voice: %s''
             [ArgS ?pn, ArgS ?loc, ArgS ''en-US-Wavenet-D'']]"
    using unset by (simp add: started_def voice_of_def Getenv_def)
  show "processPDFToSpeechHandler w e =
          (case DownloadFileToTemp w (Bucket e) (Name e) of
             (Inl err, evs) \<Rightarrow>
               Some (Some (Errorf ''failed to download PDF %s: %w''
                             [ArgS (Name e), ArgE err]),
                     started w e uri @ evs)
           | (Inr (tempPDFPath, cleanupTempFile), evs) \<Rightarrow>
               (case process_downloaded w e tempPDFPath ?pn ?loc uri ''en-US-Wavenet-D'' of
                  None \<Rightarrow> None
                | Some (result, body) \<Rightarrow>
                    Some (result, started w e uri @ evs @ body @ cleanupTempFile)))"
    by (rule h)
  show "\<forall>result tr req.
          processPDFToSpeechHandler w e = Some (result, tr) \<and> req \<in> set (requests tr) \<longrightarrow>
          VoiceName req = ''en-US-Wavenet-D''"
    using handler_requests [OF assms, of w] v by auto
  show "processPDFToSpeechHandler
          (w\<lparr>Submit := \<lambda>req. if VoiceName req = ''en-US-Wavenet-D''
                              then Submit w req
                              else Inl (LibraryError ''another voice'')\<rparr>) e
        = processPDFToSpeechHandler w e"
    by (rule handler_Submit_guard [OF assms]) (simp add: request_def v)
qed

theorem missing_configuration_fails_first_witness:
  "decide report = Proceed ''mp3-output/report.mp3'' ''gs://bkt/mp3-output/report.mp3''
   \<and> (environ (stub Map.empty [Inr ''hello''] fails_third) ''PROJECT_NUMBER'' = None
      \<or> environ (stub Map.empty [Inr ''hello''] fails_third) ''GCP_LOCATION'' = None)
   \<and> processPDFToSpeechHandler (stub Map.empty [Inr ''hello''] fails_third) report =
       Some (Some configuration_error, [received report])
   \<and> Getenv (environ (stub configured [Inr ''hello''] fails_third)) ''PROJECT_NUMBER'' \<noteq> []
   \<and> Getenv (environ (stub configured [Inr ''hello''] fails_third)) ''GCP_LOCATION'' \<noteq> []
   \<and> environ (stub configured [Inr ''hello''] fails_third) ''TTS_VOICE_NAME'' = None
   \<and> (\<forall>tr. processPDFToSpeechHandler (stub configured [Inr ''hello''] fails_third) report \<noteq>
            Some (Some configuration_error, tr))
   \<and> calls (processPDFToSpeechHandler (stub configured [Inr ''hello''] fails_third) report) =
       calls (processPDFToSpeechHandler
                ((stub configured [Inr ''hello''] fails_third)
                   \<lparr>environ := (environ (stub configured [Inr ''hello''] fails_third))
                                 (''TTS_VOICE_NAME'' \<mapsto> ''en-US-Wavenet-D'')\<rparr>) report)
   \<and> processPDFToSpeechHandler (stub configured [Inr ''hello''] fails_third) report \<noteq> None
   \<and> map VoiceName
         (requests (snd (the (processPDFToSpeechHandler
                                (stub configured [Inr ''hello''] fails_third) report)))) =
       [''en-US-Wavenet-D'']"
proof -
  have a: "environ (stub Map.empty [Inr ''hello''] fails_third) ''PROJECT_NUMBER'' = None
      \<or> environ (stub Map.empty [Inr ''hello''] fails_third) ''GCP_LOCATION'' = None"
    by (simp add: stub_def)
  have b: "Getenv (environ (stub configured [Inr ''hello''] fails_third)) ''PROJECT_NUMBER'' \<noteq> []
     \<and> Getenv (environ (stub configured [Inr ''hello''] fails_third)) ''GCP_LOCATION'' \<noteq> []
     \<and> environ (stub configured [Inr ''hello''] fails_third) ''TTS_VOICE_NAME'' = None"
    by (simp add: stub_configured)
  let ?w = "stub configured [Inr ''hello''] fails_third"
  note t = missing_configuration_fails_first [OF report_decision, of ?w]
  have q: "requests (snd (the (processPDFToSpeechHandler ?w report))) =
       [request ''hello'' ''42'' ''us-central1'' ''gs://bkt/mp3-output/report.mp3''
          ''en-US-Wavenet-D'']"
    by (simp add: quota_run started_def received_def submitted_def cycle_def
        cleanupFunc_events)
  from quota_run obtain result tr where
    run: "processPDFToSpeechHandler ?w report = Some (result, tr)" by blast
  from t b have "\<forall>result tr req.
      processPDFToSpeechHandler ?w report = Some (result, tr) \<and> req \<in> set (requests tr) \<longrightarrow>
      VoiceName req = ''en-US-Wavenet-D''"
    by blast
  with run have "\<forall>req\<in>set (requests (snd (the (processPDFToSpeechHandler ?w report)))).
      VoiceName req = ''en-US-Wavenet-D''"
    by auto
  with q have m: "map VoiceName (requests (snd (the (processPDFToSpeechHandler ?w report)))) =
       [''en-US-Wavenet-D'']"
    by simp
  from run have n: "processPDFToSpeechHandler ?w report \<noteq> None" by simp
  from missing_configuration_fails_first
         [OF report_decision, of "stub Map.empty [Inr ''hello''] fails_third"]
       t a b report_decision m n
  show ?thesis by blast
qed

text \<open>
  Claim C5. For an accepted event with its configuration, when the download succeeds
  and the extraction returns a text that is empty or a sequence of white space runes,
  the handler returns nil and its trace has no call of the speech backend: no
  submission, no status fetch, no sleep.
\<close>

theorem blank_text_skips_synthesis:
  assumes "decide e = Proceed key uri"
    and "Getenv (environ w) ''PROJECT_NUMBER'' \<noteq> []"
    and "Getenv (environ w) ''GCP_LOCATION'' \<noteq> []"
    and "DownloadFileToTemp w (Bucket e) (Name e) = (Inr (tempPDFPath, cleanupTempFile), evs)"
    and "ExtractTextFromPDFFilePath w tempPDFPath = (Inr extractedText, xevs)"
    and "extractedText = concat spaces" and "set spaces \<subseteq> set space_encodings"
  shows "\<exists>tr. processPDFToSpeechHandler w e = Some (None, tr) \<and> filter is_synthesis tr = []"
proof -
  have t: "TrimSpace extractedText = []"
    unfolding assms(6) by (rule TrimSpace_spaces [OF assms(7)])
  from ExtractText_events [OF assms(5)] obtain logs where
    xe: "xevs = EvPdfOpen tempPDFPath # logs" and l: "\<forall>ev\<in>set logs. is_log ev" by blast
  from log_quiet [OF l] xe have x: "filter is_synthesis xevs = []" by simp
  from Download_success [OF assms(4)] have
    c: "cleanupTempFile = cleanupFunc w tempPDFPath" and d: "filter is_synthesis evs = []"
    by simp_all
  from cleanupFunc_events [of w tempPDFPath] c
  have cl: "filter is_synthesis cleanupTempFile = []" by simp
  have s: "filter is_synthesis (started w e uri) = []"
    by (simp add: started_def received_def)
  have "process_downloaded w e tempPDFPath (Getenv (environ w) ''PROJECT_NUMBER'')
          (Getenv (environ w) ''GCP_LOCATION'') uri (voice_of w) =
        Some (None, xevs @ [EvPrintf ''No text extracted from PDF: %s. Skipping TTS.''
                              [ArgS (Name e)]])"
    using assms(5) t by (simp add: process_downloaded_def)
  then have "processPDFToSpeechHandler w e =
      Some (None, started w e uri @ evs
                  @ (xevs @ [EvPrintf ''No text extracted from PDF: %s. Skipping TTS.''
                               [ArgS (Name e)]])
                  @ cleanupTempFile)"
    unfolding handler_proceeds [OF assms(1,2,3)] using assms(4) by simp
  moreover have "filter is_synthesis (started w e uri @ evs
                  @ (xevs @ [EvPrintf ''No text extracted from PDF: %s. Skipping TTS.''
                               [ArgS (Name e)]])
                  @ cleanupTempFile) = []"
    using s d x cl by simp
  ultimately show ?thesis by blast
qed

theorem blank_text_skips_synthesis_witness:
  "decide report = Proceed ''mp3-output/report.mp3'' ''gs://bkt/mp3-output/report.mp3''
   \<and> [CHR 0x20, CHR 0x20, CHR 0xC2, CHR 0xA0] = concat [[CHR 0x20], [CHR 0x20], [CHR 0xC2, CHR 0xA0]]
   \<and> set [[CHR 0x20], [CHR 0x20], [CHR 0xC2, CHR 0xA0]] \<subseteq> set space_encodings
   \<and> (\<exists>tr. processPDFToSpeechHandler
              (stub configured
                 [Inr ''  '', Inl (LibraryError ''no text layer''), Inr [CHR 0xC2, CHR 0xA0]]
                 fails_third) report = Some (None, tr)
           \<and> filter is_synthesis tr = [])"
proof -
  let ?w = "stub configured
              [Inr ''  '', Inl (LibraryError ''no text layer''), Inr [CHR 0xC2, CHR 0xA0]]
              fails_third"
  have pn: "Getenv (environ ?w) ''PROJECT_NUMBER'' \<noteq> []"
    and loc: "Getenv (environ ?w) ''GCP_LOCATION'' \<noteq> []"
    by (simp_all add: stub_configured)
  have c: "[CHR 0x20, CHR 0x20, CHR 0xC2, CHR 0xA0] =
           concat [[CHR 0x20], [CHR 0x20], [CHR 0xC2, CHR 0xA0]]"
    by simp
  have s: "set [[CHR 0x20], [CHR 0x20], [CHR 0xC2, CHR 0xA0]] \<subseteq> set space_encodings"
    by (simp add: space_encodings_def)
  from blank_text_skips_synthesis
         [OF report_decision pn loc stub_download stub_extract_blank c s] report_decision c s
  show ?thesis by blast
qed

text \<open>
  Claim C6. For an accepted event with its configuration, when the download succeeds,
  every return of the handler, with nil or with an error, has in its trace exactly one
  removal of a file, and it is the removal of the temporary file.
\<close>

theorem temp_file_removed_once:
  assumes "decide e = Proceed key uri"
    and "Getenv (environ w) ''PROJECT_NUMBER'' \<noteq> []"
    and "Getenv (environ w) ''GCP_LOCATION'' \<noteq> []"
    and "DownloadFileToTemp w (Bucket e) (Name e) = (Inr (tempPDFPath, cleanupTempFile), evs)"
    and "processPDFToSpeechHandler w e = Some (result, tr)"
  shows "removals tr = [tempPDFPath]"
proof -
  from Download_success [OF assms(4)] have
    c: "cleanupTempFile = cleanupFunc w tempPDFPath" and d: "removals evs = []"
    by simp_all
  from cleanupFunc_events [of w tempPDFPath] c
  have cl: "removals cleanupTempFile = [tempPDFPath]" by simp
  have s: "removals (started w e uri) = []"
    by (simp add: started_def received_def)
  from assms(5) [unfolded handler_proceeds [OF assms(1,2,3)]] assms(4)
  obtain body where
    b: "process_downloaded w e tempPDFPath (Getenv (environ w) ''PROJECT_NUMBER'')
          (Getenv (environ w) ''GCP_LOCATION'') uri (voice_of w) = Some (result, body)"
    and t: "tr = started w e uri @ evs @ body @ cleanupTempFile"
    by (auto split: option.splits)
  from process_downloaded_events [OF b] have "removals body = []" by simp
  with t s d cl show ?thesis by simp
qed

theorem temp_file_removed_once_witness:
  "decide report = Proceed ''mp3-output/report.mp3'' ''gs://bkt/mp3-output/report.mp3''
   \<and> fst (DownloadFileToTemp (stub configured [Inr ''hello''] fails_third)
             (Bucket report) (Name report)) =
       Inr (''/tmp/report.pdf_*.tmp'',
            cleanupFunc (stub configured [Inr ''hello''] fails_third) ''/tmp/report.pdf_*.tmp'')
   \<and> processPDFToSpeechHandler (stub configured [Inr ''hello''] fails_third) report \<noteq> None
   \<and> fst (the (processPDFToSpeechHandler (stub configured [Inr ''hello''] fails_third) report)) =
       Some (Errorf ''failed to synthesize speech for %s: %w''
               [ArgS ''pdf-input/report.pdf'',
                ArgE (Errorf ''long audio synthesis operation failed for %s: %v''
                        [ArgS ''op-1'', ArgS ''quota exceeded''])])
   \<and> removals (snd (the (processPDFToSpeechHandler
                           (stub configured [Inr ''hello''] fails_third) report))) =
       [''/tmp/report.pdf_*.tmp'']"
proof -
  let ?w = "stub configured [Inr ''hello''] fails_third"
  have pn: "Getenv (environ ?w) ''PROJECT_NUMBER'' \<noteq> []"
    and loc: "Getenv (environ ?w) ''GCP_LOCATION'' \<noteq> []"
    by (simp_all add: stub_configured)
  from temp_file_removed_once [OF report_decision pn loc stub_download quota_run]
  show ?thesis by (simp add: report_decision stub_download quota_run)
qed

text \<open>
  Claim C10. For an accepted event, the URI of the output is \<^verbatim>\<open>gs://\<close>, the bucket of
  the event, a separator and the name of the output object; every request the handler
  has handed to the speech backend when it returns has this URI as its output; and a
  backend that refuses every request for another location makes no difference to the
  handler, whether it returns or not.
\<close>

theorem output_in_input_bucket:
  assumes "decide e = Proceed key uri"
  shows "uri = ''gs://'' @ Bucket e @ ''/'' @ key
         \<and> (\<forall>result tr req.
               processPDFToSpeechHandler w e = Some (result, tr) \<and> req \<in> set (requests tr) \<longrightarrow>
               OutputGcsUri req = ''gs://'' @ Bucket e @ ''/'' @ key)
         \<and> processPDFToSpeechHandler
               (w\<lparr>Submit := \<lambda>req. if OutputGcsUri req = ''gs://'' @ Bucket e @ ''/'' @ key
                                   then Submit w req
                                   else Inl (LibraryError ''another location'')\<rparr>) e
             = processPDFToSpeechHandler w e"
proof (intro conjI allI impI)
  show u: "uri = ''gs://'' @ Bucket e @ ''/'' @ key" by (rule decide_uri [OF assms])
  let ?pn = "Getenv (environ w) ''PROJECT_NUMBER''" and ?loc = "Getenv (environ w) ''GCP_LOCATION''"
  let ?w' = "w\<lparr>Submit := \<lambda>req. if OutputGcsUri req = ''gs://'' @ Bucket e @ ''/'' @ key
                                   then Submit w req
                                   else Inl (LibraryError ''another location'')\<rparr>"
  {
    fix result tr req
    assume a: "processPDFToSpeechHandler w e = Some (result, tr) \<and> req \<in> set (requests tr)"
    show "OutputGcsUri req = ''gs://'' @ Bucket e @ ''/'' @ key"
    proof (cases "?pn = [] \<or> ?loc = []")
      case True
      with assms a show ?thesis
        by (auto simp: processPDFToSpeechHandler_def Let_def)
    next
      case False
      then have pn: "?pn \<noteq> []" and loc: "?loc \<noteq> []" by simp_all
      note h = handler_proceeds [OF assms pn loc]
      obtain r evs where dl: "DownloadFileToTemp w (Bucket e) (Name e) = (r, evs)"
        by (cases "DownloadFileToTemp w (Bucket e) (Name e)")
      have s: "requests (started w e uri) = []"
        by (simp add: started_def received_def)
      show ?thesis
      proof (cases r)
        case (Inl err)
        with assms a dl s show ?thesis unfolding h
          by (auto simp: DownloadFileToTemp_def split: sum.splits option.splits)
      next
        case (Inr pc)
        obtain tempPDFPath cleanupTempFile where pc: "pc = (tempPDFPath, cleanupTempFile)"
          by (cases pc)
        from Download_success [OF dl [unfolded Inr pc]] have
          c: "cleanupTempFile = cleanupFunc w tempPDFPath" and d: "requests evs = []"
          by simp_all
        from cleanupFunc_events [of w tempPDFPath] c
        have cl: "requests cleanupTempFile = []" by simp
        from a [unfolded h] dl Inr pc obtain body where
          b: "process_downloaded w e tempPDFPath ?pn ?loc uri (voice_of w) = Some (result, body)"
          and t: "tr = started w e uri @ evs @ body @ cleanupTempFile"
          by (auto split: option.splits)
        from a t s d cl have "req \<in> set (requests body)" by simp
        with process_downloaded_events [OF b] u show ?thesis by blast
      qed
    qed
  }
  show "processPDFToSpeechHandler ?w' e = processPDFToSpeechHandler w e"
  proof (cases "?pn = [] \<or> ?loc = []")
    case True
    with assms show ?thesis
      by (auto simp: processPDFToSpeechHandler_def Let_def)
  next
    case False
    then have pn: "?pn \<noteq> []" and loc: "?loc \<noteq> []" by simp_all
    have e': "environ ?w' = environ w" by simp
    have v': "voice_of ?w' = voice_of w" by (simp add: voice_of_def)
    have s': "started ?w' e uri = started w e uri" by (simp add: started_def voice_of_def)
    have d: "DownloadFileToTemp ?w' (Bucket e) (Name e) = DownloadFileToTemp w (Bucket e) (Name e)"
      by (rule DownloadFileToTemp_world) simp_all
    have p: "\<And>tempPDFPath. process_downloaded ?w' e tempPDFPath ?pn ?loc uri (voice_of w) =
        process_downloaded w e tempPDFPath ?pn ?loc uri (voice_of w)"
      by (rule process_downloaded_world) (simp_all add: request_def u)
    show ?thesis
      unfolding handler_proceeds [OF assms pn loc]
        handler_proceeds [of e key uri ?w', OF assms, unfolded e' v' s' d p, OF pn loc] ..
  qed
qed

theorem output_in_input_bucket_witness:
  "decide report = Proceed ''mp3-output/report.mp3'' ''gs://bkt/mp3-output/report.mp3''
   \<and> Bucket report = ''bkt''
   \<and> processPDFToSpeechHandler (stub configured [Inr ''hello''] fails_third) report \<noteq> None
   \<and> requests (snd (the (processPDFToSpeechHandler
                           (stub configured [Inr ''hello''] fails_third) report))) =
       [request ''hello'' ''42'' ''us-central1'' ''gs://bkt/mp3-output/report.mp3''
          ''en-US-Wavenet-D'']
   \<and> map OutputGcsUri
         (requests (snd (the (processPDFToSpeechHandler
                                (stub configured [Inr ''hello''] fails_third) report)))) =
       [''gs://'' @ ''bkt'' @ ''/'' @ ''mp3-output/report.mp3'']"
proof -
  let ?w = "stub configured [Inr ''hello''] fails_third"
  have b: "Bucket report = ''bkt''" by (simp add: report_def)
  have q: "requests (snd (the (processPDFToSpeechHandler ?w report))) =
       [request ''hello'' ''42'' ''us-central1'' ''gs://bkt/mp3-output/report.mp3''
          ''en-US-Wavenet-D'']"
    by (simp add: quota_run started_def received_def submitted_def cycle_def
        cleanupFunc_events)
  from output_in_input_bucket [OF report_decision, of ?w]
  have f: "\<forall>result tr req.
             processPDFToSpeechHandler ?w report = Some (result, tr) \<and> req \<in> set (requests tr) \<longrightarrow>
             OutputGcsUri req = ''gs://'' @ Bucket report @ ''/'' @ ''mp3-output/report.mp3''"
    by blast
  from quota_run obtain result tr where
    run: "processPDFToSpeechHandler ?w report = Some (result, tr)" by blast
  from f run have "\<forall>req\<in>set (requests tr).
      OutputGcsUri req = ''gs://'' @ Bucket report @ ''/'' @ ''mp3-output/report.mp3''"
    by blast
  with run b have
    "\<forall>req\<in>set (requests (snd (the (processPDFToSpeechHandler ?w report)))).
          OutputGcsUri req = ''gs://'' @ ''bkt'' @ ''/'' @ ''mp3-output/report.mp3''"
    by simp
  with q have "map OutputGcsUri (requests (snd (the (processPDFToSpeechHandler ?w report)))) =
       [''gs://'' @ ''bkt'' @ ''/'' @ ''mp3-output/report.mp3'']"
    by simp
  moreover from run have "processPDFToSpeechHandler ?w report \<noteq> None" by simp
  ultimately show ?thesis using report_decision b q by blast
qed

end
